theory Spec2Isabelle
  imports Main "HOL-Library.Word"
begin

section \<open>Data model (types.ts and the shapes the services read)\<close>

datatype MediaType = IMAGE | VIDEO

datatype Status = idle | uploading | processing | success | error

record ProcessingState =
  status :: Status
  message :: "string option"
  progress :: "nat option"

text \<open>A browser \<open>File\<close>: its name, its declared mime type and its bytes.\<close>

record File =
  fname :: string
  ftype :: string
  fbytes :: "8 word list"

text \<open>
  Values that the code throws or that reject a promise: an \<open>Error\<close> object with its
  message, or the event object that \<open>FileReader.onerror\<close> hands to \<open>reject\<close>, which has
  no \<open>message\<close> property.
\<close>

datatype exn = Error string | ProgressEvent

fun message_of :: "exn \<Rightarrow> string option" where
  "message_of (Error m) = Some m"
| "message_of ProgressEvent = None"

text \<open>The response of \<open>ai.models.generateContent\<close>, every optional member an option.\<close>

record InlineData =
  inl_mimeType :: "string option"
  inl_data :: "string option"

record Part =
  inlineData :: "InlineData option"
  part_text :: "string option"

record Content =
  parts :: "Part list option"

record Candidate =
  content :: "Content option"

record GenerateContentResponse =
  candidates :: "Candidate list option"

record GenerateContentParameters =
  gc_model :: string
  gc_mimeType :: string
  gc_data :: "string option"
  gc_text :: string

text \<open>The long-running operation of \<open>generateVideos\<close> and \<open>getVideosOperation\<close>.\<close>

record Video =
  uri :: "string option"

record GeneratedVideo =
  video :: "Video option"

record GenerateVideosResponse =
  generatedVideos :: "GeneratedVideo list option"

record Operation =
  op_name :: string
  op_done :: bool
  op_response :: "GenerateVideosResponse option"

record GenerateVideosParameters =
  gv_model :: string
  gv_imageBytes :: "string option"
  gv_mimeType :: string
  gv_prompt :: string
  gv_numberOfVideos :: nat
  gv_resolution :: string
  gv_aspectRatio :: string

datatype Blob = Blob (blob_bytes: "8 word list")

text \<open>The \<open>Response\<close> of \<open>fetch\<close>; reading its body with \<open>blob()\<close> may reject.\<close>

datatype Response = Response (body_blob: "exn + Blob")

section \<open>The environment and the observable effects\<close>

text \<open>
  Modelled from the spec: the authorization collaborator \<open>window.aistudio\<close>, whose
  declaration is not part of the sources; the spec gives it \<open>hasCapability(): bool\<close> and
  \<open>requestCapability(): void\<close>. The member \<open>hasSelectedApiKey\<close> is \<open>None\<close> when the
  object lacks the method; otherwise it answers the k-th call of a run (k from 0).
\<close>

record AIStudio =
  hasSelectedApiKey :: "(nat \<Rightarrow> bool) option"

text \<open>
  Everything outside the repository is a field of the environment: the remote services answer
  requests, the k-th status query gets the k-th scripted answer, and the browser reads files,
  loads videos, renders a canvas and fetches URLs.
\<close>

record env =
  API_KEY :: "string option"
  aistudio :: "AIStudio option"
  readError :: "File \<Rightarrow> exn option"
  generateContent :: "GenerateContentParameters \<Rightarrow> exn + GenerateContentResponse"
  generateVideos :: "GenerateVideosParameters \<Rightarrow> exn + Operation"
  getVideosOperation :: "nat \<Rightarrow> exn + Operation"
  fetch :: "string \<Rightarrow> exn + Response"
  createObjectURL :: "8 word list \<Rightarrow> string"
  loadeddata :: "string option \<Rightarrow> (nat \<times> nat) option"
  jpegBase64 :: "string option \<Rightarrow> string"

datatype event =
    SetStatus ProcessingState
  | SetResultUrl "string option"
  | ReadAsDataURL File
  | GenerateContent GenerateContentParameters
  | ConsoleError string exn
  | HasSelectedApiKey
  | OpenSelectKey
  | GenerateVideos GenerateVideosParameters
  | SetTimeout nat
  | GetVideosOperation Operation
  | Fetch string
  | CreateObjectURL "8 word list"
  | LoadVideo "string option"
  | ToDataURL nat nat

text \<open>
  What a run has done so far: the effects in order, and how many status queries and
  capability checks it has made (the index of the next scripted answer).
\<close>

record io =
  trace :: "event list"
  polls :: nat
  keyChecks :: nat

definition emit :: "event \<Rightarrow> io \<Rightarrow> io" where
  "emit e w = w\<lparr>trace := trace w @ [e]\<rparr>"

section \<open>services/geminiService: the image-edit client\<close>

text \<open>JavaScript truthiness of an optional string: defined and not empty.\<close>

fun truthy :: "string option \<Rightarrow> bool" where
  "truthy None = False"
| "truthy (Some s) = (s \<noteq> [])"

text \<open>\<open>response.candidates?.[0]?.content?.parts || []\<close>\<close>

definition responseParts :: "GenerateContentResponse \<Rightarrow> Part list" where
  "responseParts response =
     (case candidates response of
        None \<Rightarrow> []
      | Some cs \<Rightarrow>
          (case cs of
             [] \<Rightarrow> []
           | c # _ \<Rightarrow>
               (case content c of
                  None \<Rightarrow> []
                | Some ct \<Rightarrow> (case parts ct of None \<Rightarrow> [] | Some ps \<Rightarrow> ps))))"

text \<open>\<open>part.inlineData && part.inlineData.data\<close>\<close>

definition partData :: "Part \<Rightarrow> string option" where
  "partData part =
     (case inlineData part of
        None \<Rightarrow> None
      | Some d \<Rightarrow> (if truthy (inl_data d) then inl_data d else None))"

text \<open>The \<open>for (const part of ...)\<close> loop with its early return.\<close>

fun scanParts :: "Part list \<Rightarrow> string option" where
  "scanParts [] = None"
| "scanParts (part # rest) =
     (case partData part of Some d \<Rightarrow> Some d | None \<Rightarrow> scanParts rest)"

definition editPrompt :: string where
  "editPrompt = ''Remove all watermarks, text overlays, logos, and timestamps from this image. Reconstruct the background naturally where the watermarks were removed. Return only the cleaned image.''"

definition editRequest :: "string option \<Rightarrow> string \<Rightarrow> GenerateContentParameters" where
  "editRequest base64Image mimeType =
     \<lparr>gc_model = ''gemini-2.5-flash-image'', gc_mimeType = mimeType,
      gc_data = base64Image, gc_text = editPrompt\<rparr>"

definition NoResultData :: exn where
  "NoResultData = Error ''No image data returned from the model.''"

definition removeImageWatermark ::
  "env \<Rightarrow> string option \<Rightarrow> string \<Rightarrow> io \<Rightarrow> io \<times> (exn + string)" where
  "removeImageWatermark E base64Image mimeType w =
     (let w1 = emit (GenerateContent (editRequest base64Image mimeType)) w in
      case generateContent E (editRequest base64Image mimeType) of
        Inl e \<Rightarrow> (emit (ConsoleError ''Error removing watermark:'' e) w1, Inl e)
      | Inr response \<Rightarrow>
          (case scanParts (responseParts response) of
             Some d \<Rightarrow> (w1, Inr d)
           | None \<Rightarrow>
               (emit (ConsoleError ''Error removing watermark:'' NoResultData) w1,
                Inl NoResultData)))"

section \<open>services/geminiService: the video-job client\<close>

text \<open>\<open>operation.response?.generatedVideos?.[0]?.video?.uri\<close>\<close>

definition downloadLink :: "Operation \<Rightarrow> string option" where
  "downloadLink operation =
     (case op_response operation of
        None \<Rightarrow> None
      | Some r \<Rightarrow>
          (case generatedVideos r of
             None \<Rightarrow> None
           | Some gs \<Rightarrow>
               (case gs of
                  [] \<Rightarrow> None
                | g # _ \<Rightarrow> (case video g of None \<Rightarrow> None | Some v \<Rightarrow> uri v))))"

definition videoRequest :: "string option \<Rightarrow> string \<Rightarrow> GenerateVideosParameters" where
  "videoRequest base64Image mimeType =
     \<lparr>gv_model = ''veo-3.1-fast-generate-preview'', gv_imageBytes = base64Image,
      gv_mimeType = mimeType,
      gv_prompt = ''Animate this scene naturally, high quality, cinematic movement.'',
      gv_numberOfVideos = 1, gv_resolution = ''720p'', gv_aspectRatio = ''16:9''\<rparr>"

text \<open>One iteration of the loop body: wait five seconds, then query the status of the held
  handle; the answer is the next scripted one.\<close>

definition pollOnce :: "env \<Rightarrow> Operation \<Rightarrow> io \<Rightarrow> io \<times> (exn + Operation)" where
  "pollOnce E operation w =
     (let w1 = emit (SetTimeout 5000) w;
          w2 = emit (GetVideosOperation operation) w1
      in (w2\<lparr>polls := Suc (polls w2)\<rparr>, getVideosOperation E (polls w2)))"

text \<open>\<open>while (!operation.done) { ... }\<close>: it has no bound, so it may never return
  (\<open>None\<close>); a rejected status query leaves the loop with the error.\<close>

partial_function (option) pollLoop ::
  "env \<Rightarrow> Operation \<Rightarrow> io \<Rightarrow> (io \<times> (exn + Operation)) option" where
  "pollLoop E operation w =
     (if \<not> op_done operation then
        (case pollOnce E operation w of
           (w', Inl e) \<Rightarrow> Some (w', Inl e)
         | (w', Inr operation') \<Rightarrow> pollLoop E operation' w')
      else Some (w, Inr operation))"

definition MissingResultLocator :: exn where
  "MissingResultLocator = Error ''Video generation failed to return a URI.''"

definition AuthorizationMissing :: exn where
  "AuthorizationMissing = Error ''Please select a paid API key to use Video features.''"

text \<open>A template literal renders an undefined value as the text \<open>undefined\<close>.\<close>

definition render :: "string option \<Rightarrow> string" where
  "render v = (case v of None \<Rightarrow> ''undefined'' | Some s \<Rightarrow> s)"

text \<open>The \<open>catch\<close> of the video client: log and rethrow.\<close>

definition videoCatch :: "exn \<Rightarrow> io \<Rightarrow> io \<times> (exn + string)" where
  "videoCatch e w = (emit (ConsoleError ''Error generating video:'' e) w, Inl e)"

text \<open>From the finished operation to the object URL of the fetched bytes.\<close>

definition fetchResult :: "env \<Rightarrow> Operation \<Rightarrow> io \<Rightarrow> io \<times> (exn + string)" where
  "fetchResult E operation w =
     (if \<not> truthy (downloadLink operation) then videoCatch MissingResultLocator w
      else
        let url = render (downloadLink operation) @ ''&key='' @ render (API_KEY E);
            w1 = emit (Fetch url) w
        in case fetch E url of
             Inl e \<Rightarrow> videoCatch e w1
           | Inr videoResponse \<Rightarrow>
               (case body_blob videoResponse of
                  Inl e \<Rightarrow> videoCatch e w1
                | Inr blob \<Rightarrow>
                    (emit (CreateObjectURL (blob_bytes blob)) w1,
                     Inr (createObjectURL E (blob_bytes blob)))))"

text \<open>The capability check shared by the client and the orchestrator:
  \<open>window.aistudio && window.aistudio.hasSelectedApiKey\<close>, then the awaited call.
  \<open>None\<close>: no check was made.\<close>

definition checkKey :: "env \<Rightarrow> io \<Rightarrow> io \<times> bool option" where
  "checkKey E w =
     (case aistudio E of
        None \<Rightarrow> (w, None)
      | Some a \<Rightarrow>
          (case hasSelectedApiKey a of
             None \<Rightarrow> (w, None)
           | Some answer \<Rightarrow>
               (let w1 = emit HasSelectedApiKey w
                in (w1\<lparr>keyChecks := Suc (keyChecks w1)\<rparr>, Some (answer (keyChecks w1))))))"

text \<open>The \<open>try\<close> block of the video client: submit, poll, fetch.\<close>

definition submitAndFetch ::
  "env \<Rightarrow> string option \<Rightarrow> string \<Rightarrow> io \<Rightarrow> (io \<times> (exn + string)) option" where
  "submitAndFetch E base64Image mimeType w0 =
     (let w1 = emit (GenerateVideos (videoRequest base64Image mimeType)) w0 in
      case generateVideos E (videoRequest base64Image mimeType) of
        Inl e \<Rightarrow> Some (videoCatch e w1)
      | Inr operation \<Rightarrow>
          (case pollLoop E operation w1 of
             None \<Rightarrow> None
           | Some (w2, Inl e) \<Rightarrow> Some (videoCatch e w2)
           | Some (w2, Inr finished) \<Rightarrow> Some (fetchResult E finished w2)))"

text \<open>\<open>new GoogleGenAI({ apiKey: process.env.API_KEY })\<close>: the constructor belongs to the
  SDK, not to the repository. In the browser it throws when the key it is given is
  undefined, and accepts every string. \<open>None\<close>: the client is constructed.\<close>

definition ApiKeyNotSet :: exn where
  "ApiKeyNotSet = Error ''An API Key must be set when running in a browser''"

definition newGoogleGenAI :: "string option \<Rightarrow> exn option" where
  "newGoogleGenAI apiKey = (case apiKey of None \<Rightarrow> Some ApiKeyNotSet | Some k \<Rightarrow> None)"

text \<open>The capability check, the construction of the client, and the \<open>try\<close> block. The
  first two stand before the \<open>try\<close>: what they throw is not logged.\<close>

definition reconstructVideoFromImage ::
  "env \<Rightarrow> string option \<Rightarrow> string \<Rightarrow> io \<Rightarrow> (io \<times> (exn + string)) option" where
  "reconstructVideoFromImage E base64Image mimeType w =
     (case checkKey E w of
        (w0, Some False) \<Rightarrow> Some (w0, Inl AuthorizationMissing)
      | (w0, _) \<Rightarrow>
          (case newGoogleGenAI (API_KEY E) of
             Some e \<Rightarrow> Some (w0, Inl e)
           | None \<Rightarrow> submitAndFetch E base64Image mimeType w0))"

section \<open>services/geminiService: the encoding helper\<close>

text \<open>
  \<open>FileReader.readAsDataURL\<close> and the decoding of its payload belong to the browser, not to
  the repository; they follow the File API and RFC 4648: the result of a read is the text
  \<open>data:\<close>, the file's type, \<open>;base64,\<close> and the base64 encoding of the bytes.
\<close>

definition alphabet :: string where
  "alphabet = ''ABCDEFGHIJKLMNOPQRSTUVWXYZabcdefghijklmnopqrstuvwxyz0123456789+/''"

definition b64char :: "nat \<Rightarrow> char" where
  "b64char i = alphabet ! i"

text \<open>Three bytes give four characters of six bits each; a last group of one or two bytes
  is padded with \<open>=\<close>.\<close>

fun base64 :: "8 word list \<Rightarrow> string" where
  "base64 [] = []"
| "base64 [a] =
     [b64char (unat a div 4), b64char ((unat a mod 4) * 16), CHR ''='', CHR ''='']"
| "base64 [a, b] =
     [b64char (unat a div 4), b64char ((unat a mod 4) * 16 + unat b div 16),
      b64char ((unat b mod 16) * 4), CHR ''='']"
| "base64 (a # b # c # rest) =
     [b64char (unat a div 4), b64char ((unat a mod 4) * 16 + unat b div 16),
      b64char ((unat b mod 16) * 4 + unat c div 64), b64char (unat c mod 64)]
     @ base64 rest"

fun indexOf :: "char \<Rightarrow> string \<Rightarrow> nat option" where
  "indexOf c [] = None"
| "indexOf c (x # xs) =
     (if x = c then Some 0 else map_option Suc (indexOf c xs))"

definition b64index :: "char \<Rightarrow> nat option" where
  "b64index c = indexOf c alphabet"

text \<open>The bytes of one group of four characters, and of a last group with one and with two
  padding characters.\<close>

definition group3 :: "nat \<Rightarrow> nat \<Rightarrow> nat \<Rightarrow> nat \<Rightarrow> 8 word list" where
  "group3 i0 i1 i2 i3 =
     [of_nat (i0 * 4 + i1 div 16), of_nat ((i1 mod 16) * 16 + i2 div 4),
      of_nat ((i2 mod 4) * 64 + i3)]"

definition group2 :: "nat \<Rightarrow> nat \<Rightarrow> nat \<Rightarrow> 8 word list" where
  "group2 i0 i1 i2 = [of_nat (i0 * 4 + i1 div 16), of_nat ((i1 mod 16) * 16 + i2 div 4)]"

definition group1 :: "nat \<Rightarrow> nat \<Rightarrow> 8 word list" where
  "group1 i0 i1 = [of_nat (i0 * 4 + i1 div 16)]"

fun decode64 :: "string \<Rightarrow> 8 word list option" where
  "decode64 [] = Some []"
| "decode64 (c0 # c1 # c2 # c3 # rest) =
     (case (b64index c0, b64index c1) of
        (Some i0, Some i1) \<Rightarrow>
          (if c3 = CHR ''='' then
             (if rest \<noteq> [] then None
              else if c2 = CHR ''='' then Some (group1 i0 i1)
              else (case b64index c2 of
                      None \<Rightarrow> None
                    | Some i2 \<Rightarrow> Some (group2 i0 i1 i2)))
           else
             (case (b64index c2, b64index c3) of
                (Some i2, Some i3) \<Rightarrow> map_option ((@) (group3 i0 i1 i2 i3)) (decode64 rest)
              | _ \<Rightarrow> None))
      | _ \<Rightarrow> None)"
| "decode64 _ = None"

definition readAsDataURL :: "File \<Rightarrow> string" where
  "readAsDataURL f = ''data:'' @ ftype f @ '';base64,'' @ base64 (fbytes f)"

text \<open>\<open>String.prototype.split\<close> with a one-character separator: the pieces between the
  separators, the piece being read held reversed in \<open>acc\<close>.\<close>

fun split :: "char \<Rightarrow> string \<Rightarrow> string \<Rightarrow> string list" where
  "split sep acc [] = [rev acc]"
| "split sep acc (c # cs) =
     (if c = sep then rev acc # split sep [] cs else split sep (c # acc) cs)"

text \<open>The element at index 1 of an array, \<open>undefined\<close> when the array is shorter.\<close>

fun at1 :: "'a list \<Rightarrow> 'a option" where
  "at1 (_ # y # _) = Some y"
| "at1 _ = None"

text \<open>\<open>fileToBase64\<close>: the promise resolves with \<open>result.split(',')[1]\<close> or rejects with
  the reader's error event.\<close>

definition fileToBase64 :: "env \<Rightarrow> File \<Rightarrow> io \<Rightarrow> io \<times> (exn + string option)" where
  "fileToBase64 E f w =
     (let w1 = emit (ReadAsDataURL f) w in
      case readError E f of
        Some e \<Rightarrow> (w1, Inl e)
      | None \<Rightarrow> (w1, Inr (at1 (split CHR '','' [] (readAsDataURL f)))))"

section \<open>App: the orchestrator\<close>

record app =
  activeTab :: MediaType
  "file" :: "File option"
  previewUrl :: "string option"
  resultUrl :: "string option"
  pstate :: ProcessingState
  world :: io

definition setStatus :: "ProcessingState \<Rightarrow> app \<Rightarrow> app" where
  "setStatus st s = s\<lparr>pstate := st, world := emit (SetStatus st) (world s)\<rparr>"

definition setResultUrl :: "string option \<Rightarrow> app \<Rightarrow> app" where
  "setResultUrl u s = s\<lparr>resultUrl := u, world := emit (SetResultUrl u) (world s)\<rparr>"

definition effect :: "event \<Rightarrow> app \<Rightarrow> app" where
  "effect e s = s\<lparr>world := emit e (world s)\<rparr>"

definition only :: "Status \<Rightarrow> ProcessingState" where
  "only st = \<lparr>status = st, message = None, progress = None\<rparr>"

definition working :: "string \<Rightarrow> nat \<Rightarrow> ProcessingState" where
  "working m p = \<lparr>status = processing, message = Some m, progress = Some p\<rparr>"

text \<open>The \<open>catch\<close> of the handler: \<open>error.message || "Failed to process file."\<close>\<close>

definition catchError :: "exn \<Rightarrow> app \<Rightarrow> app" where
  "catchError e s =
     setStatus \<lparr>status = error,
                message = Some (if truthy (message_of e) then the (message_of e)
                                else ''Failed to process file.''),
                progress = None\<rparr> s"

definition imageFlow :: "env \<Rightarrow> File \<Rightarrow> string option \<Rightarrow> app \<Rightarrow> app" where
  "imageFlow E f b64 s =
     (let s1 = setStatus (working ''Analyzing image structure...'' 30) s;
          s2 = effect (SetTimeout 500) s1;
          s3 = setStatus (working ''Removing watermark patterns...'' 60) s2
      in case removeImageWatermark E b64 (ftype f) (world s3) of
           (w, Inl e) \<Rightarrow> catchError e (s3\<lparr>world := w\<rparr>)
         | (w, Inr cleanBase64) \<Rightarrow>
             setStatus (only success)
               (setResultUrl (Some (''data:'' @ ftype f @ '';base64,'' @ cleanBase64))
                  (s3\<lparr>world := w\<rparr>)))"

text \<open>\<open>canvas.toDataURL('image/jpeg')\<close>: by the HTML standard a canvas without pixels gives
  \<open>data:,\<close>; otherwise the JPEG rendering of the frame, which the environment supplies.\<close>

definition toDataURL :: "env \<Rightarrow> string option \<Rightarrow> nat \<Rightarrow> nat \<Rightarrow> string" where
  "toDataURL E src width height =
     (if width = 0 \<or> height = 0 then ''data:,''
      else ''data:image/jpeg;base64,'' @ jpegBase64 E src)"

text \<open>Steps 3 to 6 of the video flow, after the capability check. Awaiting \<open>loadeddata\<close>
  never returns when the video does not load.\<close>

definition reconstructFlow :: "env \<Rightarrow> app \<Rightarrow> app option" where
  "reconstructFlow E s =
     (let s2 = setStatus (working ''Extracting reference frame...'' 30) s;
          s3 = effect (LoadVideo (previewUrl s)) s2
      in case loadeddata E (previewUrl s) of
           None \<Rightarrow> None
         | Some (videoWidth, videoHeight) \<Rightarrow>
             (let s4 = effect (SetTimeout 200) s3;
                  s5 = effect (ToDataURL videoWidth videoHeight) s4;
                  frameBase64 =
                    at1 (split CHR '','' [] (toDataURL E (previewUrl s) videoWidth videoHeight));
                  s6 = setStatus (working ''Cleaning reference frame...'' 50) s5
              in case removeImageWatermark E frameBase64 ''image/jpeg'' (world s6) of
                   (w, Inl e) \<Rightarrow> Some (catchError e (s6\<lparr>world := w\<rparr>))
                 | (w, Inr cleanFrame) \<Rightarrow>
                     (let s7 = setStatus
                                 (working ''Reconstructing video stream (this may take a minute)...'' 70)
                                 (s6\<lparr>world := w\<rparr>)
                      in case reconstructVideoFromImage E (Some cleanFrame) ''image/jpeg'' (world s7) of
                           None \<Rightarrow> None
                         | Some (w', Inl e) \<Rightarrow> Some (catchError e (s7\<lparr>world := w'\<rparr>))
                         | Some (w', Inr newVideoUrl) \<Rightarrow>
                             Some (setStatus (only success)
                                     (setResultUrl (Some newVideoUrl) (s7\<lparr>world := w'\<rparr>))))))"

definition videoFlow :: "env \<Rightarrow> app \<Rightarrow> app option" where
  "videoFlow E s =
     (let s1 = setStatus
                 (working ''Video processing requires a paid API key. Checking...'' 20) s
      in case checkKey E (world s1) of
           (w, Some False) \<Rightarrow>
             Some (effect OpenSelectKey (setStatus (only idle) (s1\<lparr>world := w\<rparr>)))
         | (w, _) \<Rightarrow> reconstructFlow E (s1\<lparr>world := w\<rparr>))"

definition handleRemoveWatermark :: "env \<Rightarrow> app \<Rightarrow> app option" where
  "handleRemoveWatermark E s =
     (case file s of
        None \<Rightarrow> Some s
      | Some f \<Rightarrow>
          (let s1 = setStatus \<lparr>status = processing, message = None, progress = Some 10\<rparr> s
           in case fileToBase64 E f (world s1) of
                (w, Inl e) \<Rightarrow> Some (catchError e (s1\<lparr>world := w\<rparr>))
              | (w, Inr b64) \<Rightarrow>
                  (if activeTab s = IMAGE then Some (imageFlow E f b64 (s1\<lparr>world := w\<rparr>))
                   else videoFlow E (s1\<lparr>world := w\<rparr>))))"

text \<open>
  A run that never returns has still set the states up to the call it waits for. The same
  handler once more, with the state a run has reached and whether it has returned; of a call
  that never returns (the poll loop of the video client) no event is recorded.
\<close>

definition reconstructFlowReached :: "env \<Rightarrow> app \<Rightarrow> app \<times> bool" where
  "reconstructFlowReached E s =
     (let s2 = setStatus (working ''Extracting reference frame...'' 30) s;
          s3 = effect (LoadVideo (previewUrl s)) s2
      in case loadeddata E (previewUrl s) of
           None \<Rightarrow> (s3, False)
         | Some (videoWidth, videoHeight) \<Rightarrow>
             (let s4 = effect (SetTimeout 200) s3;
                  s5 = effect (ToDataURL videoWidth videoHeight) s4;
                  frameBase64 =
                    at1 (split CHR '','' [] (toDataURL E (previewUrl s) videoWidth videoHeight));
                  s6 = setStatus (working ''Cleaning reference frame...'' 50) s5
              in case removeImageWatermark E frameBase64 ''image/jpeg'' (world s6) of
                   (w, Inl e) \<Rightarrow> (catchError e (s6\<lparr>world := w\<rparr>), True)
                 | (w, Inr cleanFrame) \<Rightarrow>
                     (let s7 = setStatus
                                 (working ''Reconstructing video stream (this may take a minute)...'' 70)
                                 (s6\<lparr>world := w\<rparr>)
                      in case reconstructVideoFromImage E (Some cleanFrame) ''image/jpeg'' (world s7) of
                           None \<Rightarrow> (s7, False)
                         | Some (w', Inl e) \<Rightarrow> (catchError e (s7\<lparr>world := w'\<rparr>), True)
                         | Some (w', Inr newVideoUrl) \<Rightarrow>
                             (setStatus (only success)
                                (setResultUrl (Some newVideoUrl) (s7\<lparr>world := w'\<rparr>)), True))))"

definition videoFlowReached :: "env \<Rightarrow> app \<Rightarrow> app \<times> bool" where
  "videoFlowReached E s =
     (let s1 = setStatus
                 (working ''Video processing requires a paid API key. Checking...'' 20) s
      in case checkKey E (world s1) of
           (w, Some False) \<Rightarrow>
             (effect OpenSelectKey (setStatus (only idle) (s1\<lparr>world := w\<rparr>)), True)
         | (w, _) \<Rightarrow> reconstructFlowReached E (s1\<lparr>world := w\<rparr>))"

definition reached :: "env \<Rightarrow> app \<Rightarrow> app \<times> bool" where
  "reached E s =
     (case file s of
        None \<Rightarrow> (s, True)
      | Some f \<Rightarrow>
          (let s1 = setStatus \<lparr>status = processing, message = None, progress = Some 10\<rparr> s
           in case fileToBase64 E f (world s1) of
                (w, Inl e) \<Rightarrow> (catchError e (s1\<lparr>world := w\<rparr>), True)
              | (w, Inr b64) \<Rightarrow>
                  (if activeTab s = IMAGE then (imageFlow E f b64 (s1\<lparr>world := w\<rparr>), True)
                   else videoFlowReached E (s1\<lparr>world := w\<rparr>))))"

text \<open>The user actions that start anew: selecting an asset, the Start Over button, and
  switching the tab (the effect on \<open>activeTab\<close>).\<close>

definition handleFileSelect :: "env \<Rightarrow> File \<Rightarrow> app \<Rightarrow> app" where
  "handleFileSelect E selectedFile s =
     (let s1 = setStatus (only idle) (setResultUrl None (s\<lparr>file := Some selectedFile\<rparr>));
          s2 = effect (CreateObjectURL (fbytes selectedFile)) s1
      in s2\<lparr>previewUrl := Some (createObjectURL E (fbytes selectedFile))\<rparr>)"

definition startOver :: "app \<Rightarrow> app" where
  "startOver s =
     setStatus (only idle) ((setResultUrl None (s\<lparr>file := None\<rparr>))\<lparr>previewUrl := None\<rparr>)"

definition switchTab :: "MediaType \<Rightarrow> app \<Rightarrow> app" where
  "switchTab t s =
     (if t = activeTab s then s
      else setStatus (only idle)
             (setResultUrl None (s\<lparr>activeTab := t, file := None, previewUrl := None\<rparr>)))"

text \<open>The other handlers that write the state: dropping a file (\<open>validateFile\<close> tests the
  prefix of its type), closing the error banner, and removing the preview.\<close>

definition validateFile :: "MediaType \<Rightarrow> File \<Rightarrow> bool" where
  "validateFile tab f =
     (if tab = IMAGE then take 6 (ftype f) = ''image/'' else take 6 (ftype f) = ''video/'')"

definition handleDrop :: "env \<Rightarrow> File option \<Rightarrow> app \<Rightarrow> app" where
  "handleDrop E dropped s =
     (case dropped of
        None \<Rightarrow> s
      | Some droppedFile \<Rightarrow>
          (if validateFile (activeTab s) droppedFile then handleFileSelect E droppedFile s
           else setStatus
                  \<lparr>status = error,
                   message = Some (''Please upload a valid ''
                                   @ (if activeTab s = IMAGE then ''image'' else ''video'')
                                   @ '' file.''),
                   progress = None\<rparr> s))"

definition dismissError :: "app \<Rightarrow> app" where
  "dismissError s = setStatus (only idle) s"

definition removePreview :: "app \<Rightarrow> app" where
  "removePreview s = s\<lparr>file := None, previewUrl := None\<rparr>"

section \<open>Reading a trace\<close>

text \<open>The events of a run: what the trace has gained from one state of the world to a
  later one.\<close>

definition since :: "io \<Rightarrow> io \<Rightarrow> event list" where
  "since w w' = drop (length (trace w)) (trace w')"

text \<open>The states handed to \<open>setStatus\<close>, in order.\<close>

fun updates :: "event list \<Rightarrow> ProcessingState list" where
  "updates [] = []"
| "updates (SetStatus st # es) = st # updates es"
| "updates (_ # es) = updates es"

text \<open>Calls to the edit service, the video service and the asset store.\<close>

fun remoteCall :: "event \<Rightarrow> bool" where
  "remoteCall (GenerateContent _) = True"
| "remoteCall (GenerateVideos _) = True"
| "remoteCall (GetVideosOperation _) = True"
| "remoteCall (Fetch _) = True"
| "remoteCall _ = False"

fun statusQuery :: "event \<Rightarrow> bool" where
  "statusQuery (GetVideosOperation _) = True"
| "statusQuery _ = False"

fun assetFetch :: "event \<Rightarrow> bool" where
  "assetFetch (Fetch _) = True"
| "assetFetch _ = False"

text \<open>What the two clients may do, and what belongs to the capability check.\<close>

fun clientEvent :: "event \<Rightarrow> bool" where
  "clientEvent (SetStatus _) = False"
| "clientEvent (SetResultUrl _) = False"
| "clientEvent HasSelectedApiKey = False"
| "clientEvent OpenSelectKey = False"
| "clientEvent _ = True"


text \<open>The events of the poll loop: for each handle held in turn, the wait of five seconds
  and the status query that passes it.\<close>

definition pollEvents :: "Operation list \<Rightarrow> event list" where
  "pollEvents hs = concat (map (\<lambda>h. [SetTimeout 5000, GetVideosOperation h]) hs)"

fun pollEvent :: "event \<Rightarrow> bool" where
  "pollEvent (SetTimeout n) = (n = 5000)"
| "pollEvent (GetVideosOperation h) = True"
| "pollEvent _ = False"

text \<open>The \<open>processing\<close> states of the two flows, as the handler sets them.\<close>

definition started :: ProcessingState where
  "started = \<lparr>status = processing, message = None, progress = Some 10\<rparr>"

definition imageSteps :: "ProcessingState list" where
  "imageSteps = [started, working ''Analyzing image structure...'' 30,
                 working ''Removing watermark patterns...'' 60]"

definition videoSteps :: "ProcessingState list" where
  "videoSteps = [started, working ''Video processing requires a paid API key. Checking...'' 20,
                 working ''Extracting reference frame...'' 30,
                 working ''Cleaning reference frame...'' 50,
                 working ''Reconstructing video stream (this may take a minute)...'' 70]"

section \<open>Fixtures\<close>

text \<open>A ten-byte image, a video, faked answers of the services, and the environments built
  from them.\<close>

definition pngFixture :: File where
  "pngFixture = \<lparr>fname = ''fixture.png'', ftype = ''image/png'',
                  fbytes = [0x89, 0x50, 0x4E, 0x47, 0x0D, 0x0A, 0x1A, 0x0A, 0x00, 0xFF]\<rparr>"

definition mp4Fixture :: File where
  "mp4Fixture = \<lparr>fname = ''clip.mp4'', ftype = ''video/mp4'',
                  fbytes = [0x00, 0x00, 0x00, 0x18, 0x66, 0x74, 0x79, 0x70]\<rparr>"

definition textPart :: Part where
  "textPart = \<lparr>inlineData = None, part_text = Some ''Here is the cleaned image.''\<rparr>"

definition cleanedPart :: Part where
  "cleanedPart =
     \<lparr>inlineData = Some \<lparr>inl_mimeType = Some ''image/png'', inl_data = Some ''CLEANED''\<rparr>,
      part_text = None\<rparr>"

definition cleanedResponse :: GenerateContentResponse where
  "cleanedResponse =
     \<lparr>candidates = Some [\<lparr>content = Some \<lparr>parts = Some [textPart, cleanedPart]\<rparr>\<rparr>]\<rparr>"

definition textOnlyResponse :: GenerateContentResponse where
  "textOnlyResponse = \<lparr>candidates = Some [\<lparr>content = Some \<lparr>parts = Some [textPart]\<rparr>\<rparr>]\<rparr>"

definition pendingJob :: Operation where
  "pendingJob = \<lparr>op_name = ''operations/1'', op_done = False, op_response = None\<rparr>"

definition finishedJob :: Operation where
  "finishedJob =
     \<lparr>op_name = ''operations/1'', op_done = True,
      op_response = Some \<lparr>generatedVideos = Some
        [\<lparr>video = Some \<lparr>uri = Some ''https://videos.test/1?alt=media''\<rparr>\<rparr>]\<rparr>\<rparr>"

definition emptyJob :: Operation where
  "emptyJob = \<lparr>op_name = ''operations/1'', op_done = True,
               op_response = Some \<lparr>generatedVideos = Some []\<rparr>\<rparr>"

text \<open>No authorization collaborator; every service succeeds; the job is done at the third
  status query.\<close>

definition fakeEnv :: env where
  "fakeEnv =
     \<lparr>API_KEY = Some ''KEY'', aistudio = None, readError = (\<lambda>f. None),
      generateContent = (\<lambda>req. Inr cleanedResponse),
      generateVideos = (\<lambda>req. Inr pendingJob),
      getVideosOperation = (\<lambda>k. if k < 2 then Inr pendingJob else Inr finishedJob),
      fetch = (\<lambda>url. Inr (Response (Inr (Blob [1, 2, 3])))),
      createObjectURL = (\<lambda>bytes. ''blob:result''),
      loadeddata = (\<lambda>src. Some (1, 1)),
      jpegBase64 = (\<lambda>src. ''FRAME'')\<rparr>"

definition textOnlyEnv :: env where
  "textOnlyEnv = fakeEnv\<lparr>generateContent := (\<lambda>req. Inr textOnlyResponse)\<rparr>"

definition failingEnv :: env where
  "failingEnv = fakeEnv\<lparr>generateContent := (\<lambda>req. Inl (Error ''503 Service Unavailable''))\<rparr>"

definition unauthorizedEnv :: env where
  "unauthorizedEnv = fakeEnv\<lparr>aistudio := Some \<lparr>hasSelectedApiKey = Some (\<lambda>k. False)\<rparr>\<rparr>"

definition noLocatorEnv :: env where
  "noLocatorEnv = fakeEnv\<lparr>generateVideos := (\<lambda>req. Inr emptyJob)\<rparr>"

definition doneEnv :: env where
  "doneEnv = fakeEnv\<lparr>generateVideos := (\<lambda>req. Inr finishedJob)\<rparr>"

text \<open>A video without picture: it loads, and its frame has no pixels.\<close>

definition zeroFrameEnv :: env where
  "zeroFrameEnv = doneEnv\<lparr>loadeddata := (\<lambda>src. Some (0, 0))\<rparr>"

text \<open>A video that never loads.\<close>

definition stalledEnv :: env where
  "stalledEnv = fakeEnv\<lparr>loadeddata := (\<lambda>src. None)\<rparr>"

definition start :: io where
  "start = \<lparr>trace = [], polls = 0, keyChecks = 0\<rparr>"

definition imageApp :: app where
  "imageApp = \<lparr>activeTab = IMAGE, file = Some pngFixture, previewUrl = Some ''blob:preview'',
                resultUrl = None, pstate = only idle, world = start\<rparr>"

definition videoApp :: app where
  "videoApp = \<lparr>activeTab = VIDEO, file = Some mp4Fixture, previewUrl = Some ''blob:preview'',
                resultUrl = None, pstate = only idle, world = start\<rparr>"

text \<open>The image tab after a run that succeeded: a result is stored.\<close>

definition doneApp :: app where
  "doneApp = imageApp\<lparr>resultUrl := Some ''data:image/png;base64,OLD'', pstate := only success\<rparr>"

section \<open>Traces\<close>

lemma since_append: "trace w' = trace w @ evs \<Longrightarrow> since w w' = evs"
  by (simp add: since_def)

lemma updates_append: "updates (xs @ ys) = updates xs @ updates ys"
  by (induction xs rule: updates.induct) simp_all

lemma pollEvent_client: "pollEvent x \<Longrightarrow> clientEvent x"
  by (cases x) simp_all


lemma client_updates: "\<forall>x\<in>set evs. clientEvent x \<Longrightarrow> updates evs = []"
proof (induction evs)
  case Nil
  show ?case by simp
next
  case (Cons x xs)
  then show ?case by (cases x) simp_all
qed

lemma quiet_filters:
  "\<forall>x\<in>set xs. \<not> remoteCall x \<Longrightarrow> filter statusQuery xs = [] \<and> filter assetFetch xs = []"
proof (induction xs)
  case Nil
  show ?case by simp
next
  case (Cons x xs)
  then show ?case by (cases x) simp_all
qed

lemma pollEvent_no_fetch: "\<forall>e\<in>set evs. pollEvent e \<Longrightarrow> filter assetFetch evs = []"
proof (induction evs)
  case Nil
  show ?case by simp
next
  case (Cons x xs)
  then show ?case by (cases x) simp_all
qed

lemma statusQuery_pollEvents: "length (filter statusQuery (pollEvents hs)) = length hs"
  by (induction hs) (simp_all add: pollEvents_def)

lemma assetFetch_pollEvents: "filter assetFetch (pollEvents hs) = []"
  by (induction hs) (simp_all add: pollEvents_def)

section \<open>The image-edit client\<close>

lemma scanParts_first:
  "\<forall>q\<in>set before. partData q = None \<Longrightarrow> partData p = Some d \<Longrightarrow>
   scanParts (before @ p # after) = Some d"
  by (induction before) auto

lemma scanParts_none: "(scanParts ps = None) = (\<forall>q\<in>set ps. partData q = None)"
  by (induction ps) (auto split: option.splits)

text \<open>The three outcomes of the client, with the world each leaves.\<close>

lemma edit_result:
  "removeImageWatermark E b m w =
     (case generateContent E (editRequest b m) of
        Inl e \<Rightarrow>
          (w\<lparr>trace := trace w @ [GenerateContent (editRequest b m),
                                  ConsoleError ''Error removing watermark:'' e]\<rparr>, Inl e)
      | Inr response \<Rightarrow>
          (case scanParts (responseParts response) of
             Some d \<Rightarrow> (w\<lparr>trace := trace w @ [GenerateContent (editRequest b m)]\<rparr>, Inr d)
           | None \<Rightarrow>
               (w\<lparr>trace := trace w @ [GenerateContent (editRequest b m),
                                       ConsoleError ''Error removing watermark:'' NoResultData]\<rparr>,
                Inl NoResultData)))"
  by (simp add: removeImageWatermark_def emit_def Let_def split: sum.splits option.splits)



lemma edit_emits:
  "removeImageWatermark E b m w = (w', r) \<Longrightarrow>
   \<exists>rest. trace w' = trace w @ GenerateContent (editRequest b m) # rest
      \<and> (\<forall>x\<in>set rest. clientEvent x)"
  by (auto simp: edit_result split: sum.splits option.splits)

lemma edit_quiet:
  "\<exists>evs. trace (fst (removeImageWatermark E b m w)) = trace w @ evs \<and> updates evs = []"
  by (simp add: edit_result split: sum.splits option.splits)

text \<open>The image flow when the edit service answers with data.\<close>

lemma handler_image:
  assumes "file s = Some f" "activeTab s = IMAGE" "readError E f = None"
    and "generateContent E (editRequest (at1 (split CHR '','' [] (readAsDataURL f))) (ftype f))
           = Inr response"
    and "scanParts (responseParts response) = Some payload"
  shows "\<exists>s'. handleRemoveWatermark E s = Some s' \<and> pstate s' = only success
           \<and> resultUrl s' = Some (''data:'' @ ftype f @ '';base64,'' @ payload)"
  using assms
  by (simp add: handleRemoveWatermark_def fileToBase64_def imageFlow_def Let_def
      setStatus_def setResultUrl_def effect_def edit_result emit_def)

text \<open>
  Claim C1. The client scans the parts of the response in order and returns the payload of
  the first part that carries inline data: when no part before \<open>part\<close> carries data and
  \<open>part\<close> carries the non-empty \<open>payload\<close>, the client returns \<open>payload\<close>, whatever follows.
  A run of the image flow against an edit service that answers so ends in \<open>success\<close>, and
  the stored result is that payload as a data URL of the asset's type.
\<close>

theorem first_inline_part_is_returned:
  assumes "\<forall>req. generateContent E req = Inr response"
    and "responseParts response = before @ part # after"
    and "\<forall>q\<in>set before. partData q = None"
    and "inlineData part = Some d" and "inl_data d = Some payload" and "payload \<noteq> []"
  shows "snd (removeImageWatermark E b64 mimeType w) = Inr payload \<and>
         (file s = Some f \<and> activeTab s = IMAGE \<and> readError E f = None \<longrightarrow>
           (\<exists>s'. handleRemoveWatermark E s = Some s' \<and> pstate s' = only success
              \<and> resultUrl s' = Some (''data:'' @ ftype f @ '';base64,'' @ payload)))"
proof -
  have pd: "partData part = Some payload"
    using assms(4-6) by (simp add: partData_def)
  have sc: "scanParts (responseParts response) = Some payload"
    unfolding assms(2) by (rule scanParts_first[OF assms(3) pd])
  have 1: "snd (removeImageWatermark E b64 mimeType w) = Inr payload"
    using assms(1) sc by (simp add: edit_result)
  have 2: "file s = Some f \<and> activeTab s = IMAGE \<and> readError E f = None \<longrightarrow>
           (\<exists>s'. handleRemoveWatermark E s = Some s' \<and> pstate s' = only success
              \<and> resultUrl s' = Some (''data:'' @ ftype f @ '';base64,'' @ payload))"
    using handler_image[OF _ _ _ assms(1)[rule_format] sc] by blast
  from 1 2 show ?thesis by (rule conjI)
qed

text \<open>The scenario of the spec: a ten-byte \<open>image/png\<close> asset, and a response of one text
  part followed by the binary part \<open>CLEANED\<close>.\<close>

theorem first_inline_part_is_returned_witness:
  "snd (removeImageWatermark fakeEnv (Some ''iVBORw0KGgoA/w=='') ''image/png'' start)
     = Inr ''CLEANED''
   \<and> map_option pstate (handleRemoveWatermark fakeEnv imageApp) = Some (only success)
   \<and> map_option resultUrl (handleRemoveWatermark fakeEnv imageApp)
     = Some (Some ''data:image/png;base64,CLEANED'')"
proof -
  have h1: "\<forall>req. generateContent fakeEnv req = Inr cleanedResponse"
    by (simp add: fakeEnv_def)
  have h2: "responseParts cleanedResponse = [textPart] @ cleanedPart # []"
    by (simp add: responseParts_def cleanedResponse_def)
  have h3: "\<forall>q\<in>set [textPart]. partData q = None"
    by (simp add: partData_def textPart_def)
  have h4: "inlineData cleanedPart = Some \<lparr>inl_mimeType = Some ''image/png'', inl_data = Some ''CLEANED''\<rparr>"
    by (simp add: cleanedPart_def)
  have h5: "inl_data \<lparr>inl_mimeType = Some ''image/png'', inl_data = Some ''CLEANED''\<rparr> = Some ''CLEANED''"
    by simp
  have h6: "''CLEANED'' \<noteq> []" by simp
  have pre: "file imageApp = Some pngFixture \<and> activeTab imageApp = IMAGE
              \<and> readError fakeEnv pngFixture = None"
    by (simp add: imageApp_def fakeEnv_def)
  from first_inline_part_is_returned[OF h1 h2 h3 h4 h5 h6,
      of "Some ''iVBORw0KGgoA/w==''" "''image/png''" start imageApp pngFixture] pre
  show ?thesis by (auto simp: pngFixture_def)
qed

text \<open>
  Claim C4. When no part of the response carries inline data the client signals
  \<open>NoResultData\<close>; an error of the remote call is returned as it is; and in every case
  the client has called the edit service exactly once: its events are the one request,
  followed by nothing that is a remote call.
\<close>

theorem no_result_data_and_propagation:
  "(generateContent E (editRequest b m) = Inr response \<and>
      (\<forall>q\<in>set (responseParts response). partData q = None)
      \<longrightarrow> snd (removeImageWatermark E b m w) = Inl NoResultData)
   \<and> (generateContent E (editRequest b m) = Inl e
      \<longrightarrow> snd (removeImageWatermark E b m w) = Inl e)
   \<and> (\<exists>rest. trace (fst (removeImageWatermark E b m w)) =
                trace w @ GenerateContent (editRequest b m) # rest
              \<and> (\<forall>x\<in>set rest. \<not> remoteCall x))"
proof (intro conjI impI)
  assume "generateContent E (editRequest b m) = Inr response \<and>
      (\<forall>q\<in>set (responseParts response). partData q = None)"
  then show "snd (removeImageWatermark E b m w) = Inl NoResultData"
    using scanParts_none[of "responseParts response"] by (simp add: edit_result)
next
  assume "generateContent E (editRequest b m) = Inl e"
  then show "snd (removeImageWatermark E b m w) = Inl e"
    by (simp add: edit_result)
next
  show "\<exists>rest. trace (fst (removeImageWatermark E b m w)) =
                trace w @ GenerateContent (editRequest b m) # rest
              \<and> (\<forall>x\<in>set rest. \<not> remoteCall x)"
    by (auto simp: edit_result split: sum.splits option.splits)
qed

text \<open>A response of one text part, and a service that answers 503.\<close>

theorem no_result_data_and_propagation_witness:
  "snd (removeImageWatermark textOnlyEnv (Some ''AAAA'') ''image/png'' start)
     = Inl (Error ''No image data returned from the model.'')
   \<and> snd (removeImageWatermark failingEnv (Some ''AAAA'') ''image/png'' start)
     = Inl (Error ''503 Service Unavailable'')
   \<and> length (filter remoteCall
        (trace (fst (removeImageWatermark failingEnv (Some ''AAAA'') ''image/png'' start)))) = 1"
proof -
  have t: "generateContent textOnlyEnv (editRequest (Some ''AAAA'') ''image/png'')
             = Inr textOnlyResponse
           \<and> (\<forall>q\<in>set (responseParts textOnlyResponse). partData q = None)"
    by (simp add: textOnlyEnv_def fakeEnv_def responseParts_def textOnlyResponse_def
        partData_def textPart_def)
  have f: "generateContent failingEnv (editRequest (Some ''AAAA'') ''image/png'')
             = Inl (Error ''503 Service Unavailable'')"
    by (simp add: failingEnv_def fakeEnv_def)
  from no_result_data_and_propagation[of textOnlyEnv "Some ''AAAA''" "''image/png''"
         textOnlyResponse start] t
  have 1: "snd (removeImageWatermark textOnlyEnv (Some ''AAAA'') ''image/png'' start)
     = Inl (Error ''No image data returned from the model.'')"
    by (simp add: NoResultData_def)
  from no_result_data_and_propagation[of failingEnv "Some ''AAAA''" "''image/png''"
         _ start "Error ''503 Service Unavailable''"] f
  obtain rest where 2: "snd (removeImageWatermark failingEnv (Some ''AAAA'') ''image/png'' start)
     = Inl (Error ''503 Service Unavailable'')"
    and 3: "trace (fst (removeImageWatermark failingEnv (Some ''AAAA'') ''image/png'' start)) =
                trace start @ GenerateContent (editRequest (Some ''AAAA'') ''image/png'') # rest"
       "\<forall>x\<in>set rest. \<not> remoteCall x"
    by blast
  have "filter remoteCall rest = []" using 3(2) by (simp add: filter_empty_conv)
  with 3(1) have "length (filter remoteCall
        (trace (fst (removeImageWatermark failingEnv (Some ''AAAA'') ''image/png'' start)))) = 1"
    by (simp add: start_def)
  with 1 2 show ?thesis by simp
qed

section \<open>The video-job client\<close>

lemma checkKey_cases:
  "checkKey E w = (w, None) \<or>
   (\<exists>b. checkKey E w =
      (w\<lparr>trace := trace w @ [HasSelectedApiKey], keyChecks := Suc (keyChecks w)\<rparr>, Some b))"
  by (simp add: checkKey_def emit_def Let_def split: option.splits)

lemma checkKey_polls: "polls (fst (checkKey E w)) = polls w"
  by (simp add: checkKey_def emit_def Let_def split: option.splits)

lemma checkKey_trace:
  "\<exists>pre. trace (fst (checkKey E w)) = trace w @ pre \<and> (\<forall>x\<in>set pre. \<not> remoteCall x)"
  by (auto simp: checkKey_def emit_def Let_def split: option.splits)

lemma checkKey_trace_exact:
  "trace (fst (checkKey E w)) =
     trace w @ (case snd (checkKey E w) of None \<Rightarrow> [] | Some c \<Rightarrow> [HasSelectedApiKey])"
  by (simp add: checkKey_def emit_def Let_def split: option.splits)

lemma snd_checkKey:
  "snd (checkKey E w) =
     (case aistudio E of
        None \<Rightarrow> None
      | Some a \<Rightarrow>
          (case hasSelectedApiKey a of
             None \<Rightarrow> None
           | Some answer \<Rightarrow> Some (answer (keyChecks w))))"
  by (simp add: checkKey_def emit_def Let_def split: option.splits)

lemma gate_same: "keyChecks w = keyChecks w' \<Longrightarrow> snd (checkKey E w) = snd (checkKey E w')"
  by (simp add: snd_checkKey split: option.splits)


text \<open>A handle that is done is returned at once.\<close>

lemma pollLoop_done: "op_done operation \<Longrightarrow> pollLoop E operation w = Some (w, Inr operation)"
  by (subst pollLoop.simps) simp

text \<open>What a loop that returns has done: only waits and status queries, and a handle it
  returns is done.\<close>

lemma pollLoop_returns:
  assumes run: "pollLoop E operation w = Some y"
  shows "(\<exists>evs. trace (fst y) = trace w @ evs \<and> (\<forall>e\<in>set evs. pollEvent e))
         \<and> (\<forall>f. snd y = Inr f \<longrightarrow> op_done f)"
proof (rule pollLoop.raw_induct[OF _ run])
  fix loop E operation w y
  assume IH: "\<And>E operation w y. loop E operation w = Some y \<Longrightarrow>
     (\<exists>evs. trace (fst y) = trace w @ evs \<and> (\<forall>e\<in>set evs. pollEvent e))
       \<and> (\<forall>f. snd y = Inr f \<longrightarrow> op_done f)"
    and body: "(if \<not> op_done operation then
        (case pollOnce E operation w of
           (w', Inl e) \<Rightarrow> Some (w', Inl e)
         | (w', Inr operation') \<Rightarrow> loop E operation' w')
      else Some (w, Inr operation)) = Some y"
  show "(\<exists>evs. trace (fst y) = trace w @ evs \<and> (\<forall>e\<in>set evs. pollEvent e))
       \<and> (\<forall>f. snd y = Inr f \<longrightarrow> op_done f)"
  proof (cases "op_done operation")
    case True
    with body show ?thesis by auto
  next
    case False
    obtain w1 r1 where p: "pollOnce E operation w = (w1, r1)"
      by (cases "pollOnce E operation w")
    have t1: "trace w1 = trace w @ [SetTimeout 5000, GetVideosOperation operation]"
      using p by (auto simp: pollOnce_def emit_def Let_def)
    show ?thesis
    proof (cases r1)
      case (Inl e)
      with False p body have "y = (w1, Inl e)" by simp
      with t1 show ?thesis by simp
    next
      case (Inr op')
      with False p body have "loop E op' w1 = Some y" by simp
      from IH[OF this] t1 show ?thesis by auto
    qed
  qed
qed

lemma pollLoop_frame:
  assumes "pollLoop E operation w = Some (w', r)"
  shows "\<exists>evs. trace w' = trace w @ evs \<and> (\<forall>e\<in>set evs. pollEvent e)"
    and "r = Inr f \<Longrightarrow> op_done f"
  using pollLoop_returns[OF assms] by auto

text \<open>Against a script of \<open>N\<close> pending answers and then a done one, the loop returns after
  \<open>N + 1\<close> rounds, each passing the handle fetched last.\<close>

lemma pollLoop_script:
  "\<not> op_done op0 \<Longrightarrow>
   \<forall>k<N. getVideosOperation E (polls w + k) = Inr (ops k) \<and> \<not> op_done (ops k) \<Longrightarrow>
   getVideosOperation E (polls w + N) = Inr opN \<Longrightarrow> op_done opN \<Longrightarrow>
   pollLoop E op0 w =
     Some (w\<lparr>trace := trace w @ pollEvents (op0 # map ops [0..<N]), polls := polls w + N + 1\<rparr>,
           Inr opN)"
proof (induction N arbitrary: op0 w ops)
  case 0
  then show ?case
    by (subst pollLoop.simps)
       (simp add: pollOnce_def emit_def Let_def pollEvents_def pollLoop_done)
next
  case (Suc N)
  let ?w1 = "w\<lparr>trace := trace w @ [SetTimeout 5000, GetVideosOperation op0],
               polls := Suc (polls w)\<rparr>"
  have step: "pollOnce E op0 w = (?w1, Inr (ops 0))"
    using Suc.prems(2)[rule_format, of 0] by (simp add: pollOnce_def emit_def Let_def)
  have nd: "\<not> op_done (ops 0)" using Suc.prems(2)[rule_format, of 0] by simp
  have sc: "\<forall>k<N. getVideosOperation E (polls ?w1 + k) = Inr ((ops \<circ> Suc) k)
              \<and> \<not> op_done ((ops \<circ> Suc) k)"
    using Suc.prems(2) by auto
  have fin: "getVideosOperation E (polls ?w1 + N) = Inr opN" using Suc.prems(3) by simp
  have rec: "pollLoop E (ops 0) ?w1 =
     Some (?w1\<lparr>trace := trace ?w1 @ pollEvents (ops 0 # map (ops \<circ> Suc) [0..<N]),
                polls := polls ?w1 + N + 1\<rparr>, Inr opN)"
    by (rule Suc.IH[OF nd sc fin Suc.prems(4)])
  have m: "ops 0 # map (ops \<circ> Suc) [0..<N] = map ops [0..<Suc N]"
    by (simp only: map_map[symmetric] map_Suc_upt upt_conv_Cons[OF zero_less_Suc, symmetric]
        list.map[symmetric])
  show ?case
    using Suc.prems(1) step rec m
    by (subst pollLoop.simps) (simp add: pollEvents_def)
qed

lemma fetchResult_link:
  assumes "downloadLink finished = Some link" "link \<noteq> []"
  shows "\<exists>r tail. fetchResult E finished w2 =
            (w2\<lparr>trace := trace w2 @ Fetch (link @ ''&key='' @ render (API_KEY E)) # tail\<rparr>, r)
            \<and> (\<forall>x\<in>set tail. \<not> remoteCall x)"
  using assms
  by (auto simp: fetchResult_def videoCatch_def emit_def Let_def render_def split: sum.splits)

lemma fetchResult_client:
  "\<exists>evs. trace (fst (fetchResult E operation w)) = trace w @ evs \<and> (\<forall>x\<in>set evs. clientEvent x)"
  by (simp add: fetchResult_def videoCatch_def emit_def Let_def split: sum.splits)

lemma submitAndFetch_events:
  assumes "submitAndFetch E b m w = Some (w', r)"
  shows "\<exists>rest. trace w' = trace w @ GenerateVideos (videoRequest b m) # rest
           \<and> (\<forall>x\<in>set rest. clientEvent x)"
proof (cases "generateVideos E (videoRequest b m)")
  case (Inl e)
  with assms show ?thesis
    by (auto simp: submitAndFetch_def videoCatch_def emit_def Let_def)
next
  case (Inr job)
  let ?w1 = "emit (GenerateVideos (videoRequest b m)) w"
  from assms Inr obtain w2 r2 where loop: "pollLoop E job ?w1 = Some (w2, r2)"
    by (auto simp: submitAndFetch_def Let_def split: option.splits)
  obtain evs where evs: "trace w2 = trace ?w1 @ evs" "\<forall>e\<in>set evs. pollEvent e"
    using pollLoop_frame(1)[OF loop] by blast
  have q: "\<forall>x\<in>set evs. clientEvent x" using evs(2) pollEvent_client by blast
  show ?thesis
  proof (cases r2)
    case (Inl e)
    with assms \<open>generateVideos E (videoRequest b m) = Inr job\<close> loop
    have "w' = emit (ConsoleError ''Error generating video:'' e) w2"
      by (simp add: submitAndFetch_def Let_def videoCatch_def)
    then show ?thesis using evs(1) q by (simp add: emit_def)
  next
    case (Inr finished)
    with assms \<open>generateVideos E (videoRequest b m) = Inr job\<close> loop
    have "w' = fst (fetchResult E finished w2)"
      by (simp add: submitAndFetch_def Let_def)
    moreover obtain evs2 where "trace (fst (fetchResult E finished w2)) = trace w2 @ evs2"
      "\<forall>x\<in>set evs2. clientEvent x" using fetchResult_client by blast
    ultimately show ?thesis using evs(1) q by (auto simp: emit_def)
  qed
qed

lemma reconstruct_quiet:
  assumes "reconstructVideoFromImage E b m w = Some (w', r)"
  shows "\<exists>evs. trace w' = trace w @ evs \<and> updates evs = []"
proof -
  from checkKey_cases[of E w] show ?thesis
  proof
    assume ck: "checkKey E w = (w, None)"
    show ?thesis
    proof (cases "API_KEY E")
      case None
      with ck assms show ?thesis
        by (auto simp: reconstructVideoFromImage_def newGoogleGenAI_def)
    next
      case (Some k)
      with ck assms have "submitAndFetch E b m w = Some (w', r)"
        by (simp add: reconstructVideoFromImage_def newGoogleGenAI_def)
      from submitAndFetch_events[OF this] show ?thesis
        using client_updates by fastforce
    qed
  next
    assume "\<exists>b. checkKey E w =
      (w\<lparr>trace := trace w @ [HasSelectedApiKey], keyChecks := Suc (keyChecks w)\<rparr>, Some b)"
    then obtain c where ck: "checkKey E w =
      (w\<lparr>trace := trace w @ [HasSelectedApiKey], keyChecks := Suc (keyChecks w)\<rparr>, Some c)" ..
    show ?thesis
    proof (cases c)
      case True
      show ?thesis
      proof (cases "API_KEY E")
        case None
        with True ck assms show ?thesis
          by (auto simp: reconstructVideoFromImage_def newGoogleGenAI_def)
      next
        case (Some k)
        with True ck assms have "submitAndFetch E b m
            (w\<lparr>trace := trace w @ [HasSelectedApiKey], keyChecks := Suc (keyChecks w)\<rparr>)
              = Some (w', r)"
          by (simp add: reconstructVideoFromImage_def newGoogleGenAI_def)
        from submitAndFetch_events[OF this] obtain rest where
          "trace w' = trace w @ HasSelectedApiKey # GenerateVideos (videoRequest b m) # rest"
          "\<forall>x\<in>set rest. clientEvent x" by auto
        then show ?thesis using client_updates[of rest] by simp
      qed
    next
      case False
      with ck assms show ?thesis by (auto simp: reconstructVideoFromImage_def)
    qed
  qed
qed

text \<open>With the key undefined and the check passed, the client throws before its \<open>try\<close>:
  nothing is submitted and nothing is logged.\<close>

lemma undefined_key_throws:
  assumes "API_KEY E = None" "snd (checkKey E w) \<noteq> Some False"
  shows "reconstructVideoFromImage E b m w = Some (fst (checkKey E w), Inl ApiKeyNotSet)"
  using assms
  by (cases "checkKey E w")
     (auto simp: reconstructVideoFromImage_def newGoogleGenAI_def split: option.splits bool.splits)

text \<open>
  Claim C2. Let the API key be defined (else the client cannot be constructed and nothing is
  submitted), the capability check pass, the submission return a handle that is not done,
  the next \<open>N\<close> status answers be not done, and the answer after them be done with a
  result locator. Then the client returns, and its events are: the submission; then
  \<open>N + 1\<close> rounds, each a wait of 5000 ms followed by a status query that passes the handle
  fetched last (first the submitted one); then one asset fetch, of the locator with the key
  attached; then no further remote call. So there are exactly \<open>N + 1\<close> status queries and
  exactly one asset fetch, which comes after the done answer.
\<close>

theorem poll_until_done_then_fetch_once:
  assumes key: "API_KEY E = Some apiKey"
    and gate: "snd (checkKey E w) \<noteq> Some False"
    and submit: "generateVideos E (videoRequest b m) = Inr job" "\<not> op_done job"
    and pending: "\<forall>k<N. getVideosOperation E (polls w + k) = Inr (ops k) \<and> \<not> op_done (ops k)"
    and final: "getVideosOperation E (polls w + N) = Inr finished" "op_done finished"
    and locator: "downloadLink finished = Some link" "link \<noteq> []"
  shows "\<exists>w' r tail.
           reconstructVideoFromImage E b m w = Some (w', r)
         \<and> since w w' =
               (case snd (checkKey E w) of None \<Rightarrow> [] | Some c \<Rightarrow> [HasSelectedApiKey])
               @ GenerateVideos (videoRequest b m)
               # pollEvents (job # map ops [0..<N])
               @ Fetch (link @ ''&key='' @ apiKey) # tail
         \<and> (\<forall>x\<in>set tail. \<not> remoteCall x)
         \<and> length (filter statusQuery (since w w')) = N + 1
         \<and> length (filter assetFetch (since w w')) = 1"
proof -
  obtain w0 g where ck: "checkKey E w = (w0, g)" by (cases "checkKey E w")
  with gate have g: "g \<noteq> Some False" by simp
  have p0: "polls w0 = polls w" using checkKey_polls[of E w] ck by simp
  define pre where "pre = (case g of None \<Rightarrow> [] | Some c \<Rightarrow> [HasSelectedApiKey])"
  have pre: "trace w0 = trace w @ pre" "\<forall>x\<in>set pre. \<not> remoteCall x"
    using checkKey_trace_exact[of E w] ck by (auto simp: pre_def split: option.splits)
  let ?w1 = "emit (GenerateVideos (videoRequest b m)) w0"
  let ?w2 = "?w1\<lparr>trace := trace ?w1 @ pollEvents (job # map ops [0..<N]),
                 polls := polls ?w1 + N + 1\<rparr>"
  have loop: "pollLoop E job ?w1 = Some (?w2, Inr finished)"
    by (rule pollLoop_script) (use submit pending final p0 in \<open>simp_all add: emit_def\<close>)
  have rk: "render (API_KEY E) = apiKey" using key by (simp add: render_def)
  obtain r tail where fr: "fetchResult E finished ?w2 =
        (?w2\<lparr>trace := trace ?w2 @ Fetch (link @ ''&key='' @ apiKey) # tail\<rparr>, r)"
      and tail: "\<forall>x\<in>set tail. \<not> remoteCall x"
    using fetchResult_link[OF locator, of E ?w2] unfolding rk by blast
  let ?w' = "?w2\<lparr>trace := trace ?w2 @ Fetch (link @ ''&key='' @ apiKey) # tail\<rparr>"
  have run: "reconstructVideoFromImage E b m w = Some (?w', r)"
  proof (cases g)
    case None
    then show ?thesis using ck key submit(1) loop fr
      by (simp add: reconstructVideoFromImage_def newGoogleGenAI_def submitAndFetch_def Let_def)
  next
    case (Some a)
    with g have "g = Some True" by simp
    then show ?thesis using ck key submit(1) loop fr
      by (simp add: reconstructVideoFromImage_def newGoogleGenAI_def submitAndFetch_def Let_def)
  qed
  have sn: "since w ?w' = pre @ GenerateVideos (videoRequest b m)
               # pollEvents (job # map ops [0..<N])
               @ Fetch (link @ ''&key='' @ apiKey) # tail"
    by (rule since_append) (simp add: emit_def pre(1))
  have c1: "length (filter statusQuery (since w ?w')) = N + 1"
    unfolding sn using quiet_filters[OF pre(2)] quiet_filters[OF tail]
    by (simp add: statusQuery_pollEvents)
  have c2: "length (filter assetFetch (since w ?w')) = 1"
    unfolding sn using quiet_filters[OF pre(2)] quiet_filters[OF tail]
    by (simp add: assetFetch_pollEvents)
  have pg: "pre = (case snd (checkKey E w) of None \<Rightarrow> [] | Some c \<Rightarrow> [HasSelectedApiKey])"
    using ck by (simp add: pre_def)
  show ?thesis
    using run sn[unfolded pg] tail c1 c2
    by (intro exI[of _ ?w'] exI[of _ r] exI[of _ tail]) simp
qed

text \<open>Two pending answers and then a done one: three status queries, one asset fetch.\<close>

theorem poll_until_done_then_fetch_once_witness:
  "map_option (length \<circ> filter statusQuery \<circ> since start \<circ> fst)
     (reconstructVideoFromImage fakeEnv (Some ''CLEANED'') ''image/jpeg'' start) = Some 3
   \<and> map_option (length \<circ> filter assetFetch \<circ> since start \<circ> fst)
     (reconstructVideoFromImage fakeEnv (Some ''CLEANED'') ''image/jpeg'' start) = Some 1
   \<and> map_option (take 8 \<circ> since start \<circ> fst)
     (reconstructVideoFromImage fakeEnv (Some ''CLEANED'') ''image/jpeg'' start) =
       Some [GenerateVideos (videoRequest (Some ''CLEANED'') ''image/jpeg''),
             SetTimeout 5000, GetVideosOperation pendingJob,
             SetTimeout 5000, GetVideosOperation pendingJob,
             SetTimeout 5000, GetVideosOperation pendingJob,
             Fetch ''https://videos.test/1?alt=media&key=KEY'']"
proof -
  have key: "API_KEY fakeEnv = Some ''KEY''" by (simp add: fakeEnv_def)
  have gate: "snd (checkKey fakeEnv start) \<noteq> Some False"
    by (simp add: checkKey_def fakeEnv_def)
  have nogate: "snd (checkKey fakeEnv start) = None"
    by (simp add: checkKey_def fakeEnv_def)
  have submit: "generateVideos fakeEnv (videoRequest (Some ''CLEANED'') ''image/jpeg'') = Inr pendingJob"
    "\<not> op_done pendingJob"
    by (simp_all add: fakeEnv_def pendingJob_def)
  have pending: "\<forall>k<2. getVideosOperation fakeEnv (polls start + k) = Inr ((\<lambda>k. pendingJob) k)
                  \<and> \<not> op_done ((\<lambda>k. pendingJob) k)"
    by (simp add: fakeEnv_def start_def pendingJob_def)
  have final: "getVideosOperation fakeEnv (polls start + 2) = Inr finishedJob" "op_done finishedJob"
    by (simp_all add: fakeEnv_def start_def finishedJob_def)
  have locator: "downloadLink finishedJob = Some ''https://videos.test/1?alt=media''"
    "''https://videos.test/1?alt=media'' \<noteq> []"
    by (simp_all add: downloadLink_def finishedJob_def)
  from poll_until_done_then_fetch_once[OF key gate submit pending final locator]
  obtain w' r tail where
    run: "reconstructVideoFromImage fakeEnv (Some ''CLEANED'') ''image/jpeg'' start = Some (w', r)"
    and sn: "since start w' =
               (case snd (checkKey fakeEnv start) of None \<Rightarrow> [] | Some c \<Rightarrow> [HasSelectedApiKey])
               @ GenerateVideos (videoRequest (Some ''CLEANED'') ''image/jpeg'')
               # pollEvents (pendingJob # map (\<lambda>k. pendingJob) [0..<2])
               @ Fetch (''https://videos.test/1?alt=media'' @ ''&key='' @ ''KEY'') # tail"
    and c: "length (filter statusQuery (since start w')) = 2 + 1"
       "length (filter assetFetch (since start w')) = 1"
    by blast
  have "take 8 (since start w') =
      [GenerateVideos (videoRequest (Some ''CLEANED'') ''image/jpeg''),
             SetTimeout 5000, GetVideosOperation pendingJob,
             SetTimeout 5000, GetVideosOperation pendingJob,
             SetTimeout 5000, GetVideosOperation pendingJob,
             Fetch ''https://videos.test/1?alt=media&key=KEY'']"
    unfolding sn nogate by (simp add: pollEvents_def upt_rec)
  with run c show ?thesis by simp
qed

text \<open>
  Claim C5. Let the API key be defined, so that the client is constructed and the job is
  submitted. When the loop has ended with a handle \<open>finished\<close>, that handle is done, and the
  client reads the locator at \<open>response.generatedVideos[0].video.uri\<close>. If it is absent (or
  empty) the client signals \<open>MissingResultLocator\<close> and the run contains no asset fetch;
  if it is present the next event is the fetch of that locator with the key attached.
\<close>

theorem missing_result_locator:
  assumes key: "API_KEY E \<noteq> None"
    and gate: "checkKey E w = (w0, g)" "g \<noteq> Some False"
    and submit: "generateVideos E (videoRequest b m) = Inr job"
    and loop: "pollLoop E job (emit (GenerateVideos (videoRequest b m)) w0)
                 = Some (w2, Inr finished)"
  shows "op_done finished \<and>
     (\<not> truthy (downloadLink finished) \<longrightarrow>
        reconstructVideoFromImage E b m w =
          Some (emit (ConsoleError ''Error generating video:'' MissingResultLocator) w2,
                Inl MissingResultLocator)
        \<and> filter assetFetch
            (since w (emit (ConsoleError ''Error generating video:'' MissingResultLocator) w2))
          = [])
   \<and> (truthy (downloadLink finished) \<longrightarrow>
        (\<exists>w' r tail. reconstructVideoFromImage E b m w = Some (w', r)
           \<and> trace w' = trace w2
                @ Fetch (the (downloadLink finished) @ ''&key='' @ render (API_KEY E)) # tail
           \<and> (\<forall>x\<in>set tail. \<not> remoteCall x)))"
proof (intro conjI impI)
  show "op_done finished" using pollLoop_frame(2)[OF loop] by simp
next
  have run: "reconstructVideoFromImage E b m w = Some (fetchResult E finished w2)"
  proof (cases g)
    case None
    then show ?thesis using gate(1) key submit loop
      by (auto simp: reconstructVideoFromImage_def newGoogleGenAI_def submitAndFetch_def Let_def)
  next
    case (Some a)
    with gate(2) have "g = Some True" by simp
    then show ?thesis using gate(1) key submit loop
      by (auto simp: reconstructVideoFromImage_def newGoogleGenAI_def submitAndFetch_def Let_def)
  qed
  {
    assume missing: "\<not> truthy (downloadLink finished)"
    then show "reconstructVideoFromImage E b m w =
          Some (emit (ConsoleError ''Error generating video:'' MissingResultLocator) w2,
                Inl MissingResultLocator)"
      using run by (simp add: fetchResult_def videoCatch_def)
    obtain pre where pre: "trace w0 = trace w @ pre" "\<forall>x\<in>set pre. \<not> remoteCall x"
      using checkKey_trace[of E w] gate(1) by auto
    obtain evs where evs: "trace w2 = trace (emit (GenerateVideos (videoRequest b m)) w0) @ evs"
        "\<forall>e\<in>set evs. pollEvent e"
      using pollLoop_frame(1)[OF loop] by blast
    have "since w (emit (ConsoleError ''Error generating video:'' MissingResultLocator) w2)
          = pre @ GenerateVideos (videoRequest b m) # evs
              @ [ConsoleError ''Error generating video:'' MissingResultLocator]"
      by (rule since_append) (simp add: emit_def evs(1) pre(1))
    then show "filter assetFetch
            (since w (emit (ConsoleError ''Error generating video:'' MissingResultLocator) w2))
          = []"
      using quiet_filters[OF pre(2)] pollEvent_no_fetch[OF evs(2)] by simp
  }
  {
    assume present: "truthy (downloadLink finished)"
    then obtain link where link: "downloadLink finished = Some link" "link \<noteq> []"
      by (cases "downloadLink finished") auto
    from fetchResult_link[OF link, of E w2] run link(1)
    show "\<exists>w' r tail. reconstructVideoFromImage E b m w = Some (w', r)
           \<and> trace w' = trace w2
                @ Fetch (the (downloadLink finished) @ ''&key='' @ render (API_KEY E)) # tail
           \<and> (\<forall>x\<in>set tail. \<not> remoteCall x)"
      by auto
  }
qed

text \<open>A job that is done and lists no video, and a job that is done with a locator.\<close>

theorem missing_result_locator_witness:
  "reconstructVideoFromImage noLocatorEnv (Some ''CLEANED'') ''image/jpeg'' start =
     Some (\<lparr>trace = [GenerateVideos (videoRequest (Some ''CLEANED'') ''image/jpeg''),
                      ConsoleError ''Error generating video:''
                        (Error ''Video generation failed to return a URI.'')],
             polls = 0, keyChecks = 0\<rparr>,
           Inl (Error ''Video generation failed to return a URI.''))
   \<and> (\<exists>w' r. reconstructVideoFromImage doneEnv (Some ''CLEANED'') ''image/jpeg'' start
                  = Some (w', r)
          \<and> take 2 (trace w') =
               [GenerateVideos (videoRequest (Some ''CLEANED'') ''image/jpeg''),
                Fetch ''https://videos.test/1?alt=media&key=KEY''])"
proof -
  let ?w1 = "emit (GenerateVideos (videoRequest (Some ''CLEANED'') ''image/jpeg'')) start"
  have key: "API_KEY noLocatorEnv \<noteq> None" "API_KEY doneEnv \<noteq> None"
    by (simp_all add: noLocatorEnv_def doneEnv_def fakeEnv_def)
  have gate: "checkKey noLocatorEnv start = (start, None)" "None \<noteq> Some False"
    by (simp_all add: checkKey_def noLocatorEnv_def fakeEnv_def)
  have submit: "generateVideos noLocatorEnv (videoRequest (Some ''CLEANED'') ''image/jpeg'')
                  = Inr emptyJob"
    by (simp add: noLocatorEnv_def fakeEnv_def)
  have loop: "pollLoop noLocatorEnv emptyJob ?w1 = Some (?w1, Inr emptyJob)"
    by (rule pollLoop_done) (simp add: emptyJob_def)
  have missing: "\<not> truthy (downloadLink emptyJob)"
    by (simp add: downloadLink_def emptyJob_def)
  from missing_result_locator[OF key(1) gate submit loop] missing
  have 1: "reconstructVideoFromImage noLocatorEnv (Some ''CLEANED'') ''image/jpeg'' start =
     Some (\<lparr>trace = [GenerateVideos (videoRequest (Some ''CLEANED'') ''image/jpeg''),
                      ConsoleError ''Error generating video:''
                        (Error ''Video generation failed to return a URI.'')],
             polls = 0, keyChecks = 0\<rparr>,
           Inl (Error ''Video generation failed to return a URI.''))"
    by (simp add: emit_def start_def MissingResultLocator_def)
  have gate': "checkKey doneEnv start = (start, None)"
    by (simp add: checkKey_def doneEnv_def fakeEnv_def)
  have submit': "generateVideos doneEnv (videoRequest (Some ''CLEANED'') ''image/jpeg'')
                  = Inr finishedJob"
    by (simp add: doneEnv_def fakeEnv_def)
  have loop': "pollLoop doneEnv finishedJob ?w1 = Some (?w1, Inr finishedJob)"
    by (rule pollLoop_done) (simp add: finishedJob_def)
  have present: "truthy (downloadLink finishedJob)"
    "the (downloadLink finishedJob) = ''https://videos.test/1?alt=media''"
    by (simp_all add: downloadLink_def finishedJob_def)
  from missing_result_locator[OF key(2) gate' gate(2) submit' loop'] present(1)
  obtain w' r tail where
    run: "reconstructVideoFromImage doneEnv (Some ''CLEANED'') ''image/jpeg'' start = Some (w', r)"
    and tr: "trace w' = trace ?w1
        @ Fetch (the (downloadLink finishedJob) @ ''&key='' @ render (API_KEY doneEnv)) # tail"
    by blast
  have "take 2 (trace w') =
               [GenerateVideos (videoRequest (Some ''CLEANED'') ''image/jpeg''),
                Fetch ''https://videos.test/1?alt=media&key=KEY'']"
    unfolding tr present(2)
    by (simp add: emit_def start_def render_def doneEnv_def fakeEnv_def)
  with 1 run show ?thesis by simp
qed

section \<open>The orchestrator\<close>

lemmas model = handleRemoveWatermark_def fileToBase64_def imageFlow_def videoFlow_def
  reconstructFlow_def reconstructVideoFromImage_def newGoogleGenAI_def submitAndFetch_def
  fetchResult_def
  removeImageWatermark_def checkKey_def pollOnce_def videoCatch_def catchError_def
  setStatus_def setResultUrl_def effect_def emit_def toDataURL_def readAsDataURL_def
  responseParts_def partData_def downloadLink_def render_def b64char_def alphabet_def
  Let_def only_def working_def

lemmas fixtures = pngFixture_def mp4Fixture_def textPart_def cleanedPart_def
  cleanedResponse_def textOnlyResponse_def pendingJob_def finishedJob_def emptyJob_def
  fakeEnv_def textOnlyEnv_def failingEnv_def unauthorizedEnv_def noLocatorEnv_def doneEnv_def
  zeroFrameEnv_def stalledEnv_def start_def imageApp_def videoApp_def doneApp_def

text \<open>
  Claim C3. In the video flow, when the asset is read and the capability check answers
  false, the run returns with the state \<open>idle\<close>. Its events are the two progress updates,
  the read of the asset, the check, the reset to \<open>idle\<close> and the prompt to select a key:
  no call to the edit service or to the video service, and no update with status \<open>error\<close>.
\<close>

theorem unauthorized_video_run_returns_to_idle:
  assumes "file s = Some f" "activeTab s = VIDEO" "readError E f = None"
    and "aistudio E = Some a" "hasSelectedApiKey a = Some answer"
    and "\<not> answer (keyChecks (world s))"
  shows "\<exists>s'. handleRemoveWatermark E s = Some s' \<and> pstate s' = only idle
     \<and> since (world s) (world s') =
         [SetStatus \<lparr>status = processing, message = None, progress = Some 10\<rparr>,
          ReadAsDataURL f,
          SetStatus (working ''Video processing requires a paid API key. Checking...'' 20),
          HasSelectedApiKey, SetStatus (only idle), OpenSelectKey]
     \<and> (\<forall>x\<in>set (since (world s) (world s')). \<not> remoteCall x)
     \<and> (\<forall>u\<in>set (updates (since (world s) (world s'))). status u \<noteq> error)"
proof -
  let ?evs = "[SetStatus \<lparr>status = processing, message = None, progress = Some 10\<rparr>,
          ReadAsDataURL f,
          SetStatus (working ''Video processing requires a paid API key. Checking...'' 20),
          HasSelectedApiKey, SetStatus (only idle), OpenSelectKey]"
  let ?s' = "s\<lparr>pstate := only idle,
               world := (world s)\<lparr>trace := trace (world s) @ ?evs,
                                  keyChecks := Suc (keyChecks (world s))\<rparr>\<rparr>"
  have run: "handleRemoveWatermark E s = Some ?s'"
    using assms
    by (simp add: handleRemoveWatermark_def fileToBase64_def videoFlow_def checkKey_def
        Let_def setStatus_def effect_def emit_def)
  have sn: "since (world s) (world ?s') = ?evs"
    by (rule since_append) simp
  show ?thesis
    apply (rule exI[of _ ?s'])
    apply (simp only: run sn)
    apply (simp add: only_def working_def)
    done
qed

text \<open>A video asset and a collaborator that answers false.\<close>

theorem unauthorized_video_run_returns_to_idle_witness:
  "map_option pstate (handleRemoveWatermark unauthorizedEnv videoApp) = Some (only idle)
   \<and> map_option (filter remoteCall \<circ> since start \<circ> world)
       (handleRemoveWatermark unauthorizedEnv videoApp) = Some []
   \<and> map_option (length \<circ> since start \<circ> world)
       (handleRemoveWatermark unauthorizedEnv videoApp) = Some 6"
proof -
  have h: "file videoApp = Some mp4Fixture" "activeTab videoApp = VIDEO"
    "readError unauthorizedEnv mp4Fixture = None"
    "aistudio unauthorizedEnv = Some \<lparr>hasSelectedApiKey = Some (\<lambda>k. False)\<rparr>"
    "hasSelectedApiKey \<lparr>hasSelectedApiKey = Some (\<lambda>k. False)\<rparr> = Some (\<lambda>k. False)"
    "\<not> (\<lambda>k. False) (keyChecks (world videoApp))"
    by (simp_all add: videoApp_def unauthorizedEnv_def fakeEnv_def)
  from unauthorized_video_run_returns_to_idle[OF h]
  obtain s' where "handleRemoveWatermark unauthorizedEnv videoApp = Some s'"
    "pstate s' = only idle"
    "since (world videoApp) (world s') =
         [SetStatus \<lparr>status = processing, message = None, progress = Some 10\<rparr>,
          ReadAsDataURL mp4Fixture,
          SetStatus (working ''Video processing requires a paid API key. Checking...'' 20),
          HasSelectedApiKey, SetStatus (only idle), OpenSelectKey]"
    by blast
  then show ?thesis by (simp add: videoApp_def)
qed

text \<open>
  Claim C7. A run that ends in \<open>error\<close> leaves the stored result as it was, and no run
  clears a stored result: the handler writes the result only on the path to \<open>success\<close>.
  The result is cleared by the user's actions that start anew: selecting an asset, Start
  Over, and switching the tab. Closing the error banner, removing the preview and dropping
  a file of the wrong kind leave it.
\<close>

theorem failed_run_keeps_result:
  "(handleRemoveWatermark E s = Some s' \<and> status (pstate s') = error
      \<longrightarrow> resultUrl s' = resultUrl s)
   \<and> (handleRemoveWatermark E s = Some s' \<and> resultUrl s \<noteq> None \<longrightarrow> resultUrl s' \<noteq> None)
   \<and> resultUrl (handleFileSelect E f s) = None
   \<and> resultUrl (startOver s) = None
   \<and> (t \<noteq> activeTab s \<longrightarrow> resultUrl (switchTab t s) = None)
   \<and> resultUrl (dismissError s) = resultUrl s
   \<and> resultUrl (removePreview s) = resultUrl s
   \<and> (\<not> validateFile (activeTab s) f \<longrightarrow> resultUrl (handleDrop E (Some f) s) = resultUrl s)"
proof -
  have main: "handleRemoveWatermark E s = Some s' \<Longrightarrow>
     resultUrl s' = resultUrl s \<or> (status (pstate s') = success \<and> resultUrl s' \<noteq> None)"
    by (auto simp: handleRemoveWatermark_def imageFlow_def videoFlow_def reconstructFlow_def
        catchError_def setStatus_def setResultUrl_def effect_def Let_def only_def
        split: option.splits prod.splits sum.splits if_splits bool.splits)
  have sel: "resultUrl (handleFileSelect E f s) = None"
    by (simp add: handleFileSelect_def setStatus_def setResultUrl_def effect_def Let_def)
  have so: "resultUrl (startOver s) = None"
    by (simp add: startOver_def setStatus_def setResultUrl_def)
  have tab: "t \<noteq> activeTab s \<longrightarrow> resultUrl (switchTab t s) = None"
    by (simp add: switchTab_def setStatus_def setResultUrl_def)
  have other: "resultUrl (dismissError s) = resultUrl s"
    "resultUrl (removePreview s) = resultUrl s"
    "\<not> validateFile (activeTab s) f \<longrightarrow> resultUrl (handleDrop E (Some f) s) = resultUrl s"
    by (simp_all add: dismissError_def removePreview_def handleDrop_def setStatus_def)
  show ?thesis using main sel so tab other by auto
qed

lemma failed_image_run:
  "\<exists>s'. handleRemoveWatermark failingEnv doneApp = Some s' \<and> status (pstate s') = error"
  by (simp add: handleRemoveWatermark_def fileToBase64_def imageFlow_def edit_result
      catchError_def setStatus_def effect_def Let_def fixtures)

text \<open>A stored result, then a run whose edit call fails.\<close>

theorem failed_run_keeps_result_witness:
  "map_option resultUrl (handleRemoveWatermark failingEnv doneApp)
     = Some (Some ''data:image/png;base64,OLD'')
   \<and> map_option (status \<circ> pstate) (handleRemoveWatermark failingEnv doneApp) = Some error
   \<and> resultUrl (handleFileSelect failingEnv pngFixture doneApp) = None
   \<and> resultUrl (startOver doneApp) = None
   \<and> resultUrl (switchTab VIDEO doneApp) = None
   \<and> resultUrl (handleDrop failingEnv (Some mp4Fixture) doneApp)
     = Some ''data:image/png;base64,OLD''"
proof -
  obtain s' where run: "handleRemoveWatermark failingEnv doneApp = Some s'"
    and err: "status (pstate s') = error"
    using failed_image_run by blast
  have tab: "VIDEO \<noteq> activeTab doneApp" by (simp add: doneApp_def imageApp_def)
  have bad: "\<not> validateFile (activeTab doneApp) mp4Fixture"
    by (simp add: validateFile_def doneApp_def imageApp_def mp4Fixture_def)
  have old: "resultUrl doneApp = Some ''data:image/png;base64,OLD''"
    by (simp add: doneApp_def imageApp_def)
  from failed_run_keeps_result[of failingEnv doneApp s' pngFixture VIDEO] run err tab old
  have 1: "map_option resultUrl (handleRemoveWatermark failingEnv doneApp)
     = Some (Some ''data:image/png;base64,OLD'')"
    "map_option (status \<circ> pstate) (handleRemoveWatermark failingEnv doneApp) = Some error"
    "resultUrl (handleFileSelect failingEnv pngFixture doneApp) = None"
    "resultUrl (startOver doneApp) = None"
    "resultUrl (switchTab VIDEO doneApp) = None"
    by simp_all
  from failed_run_keeps_result[of failingEnv doneApp s' mp4Fixture VIDEO] bad old
  have 2: "resultUrl (handleDrop failingEnv (Some mp4Fixture) doneApp)
     = Some ''data:image/png;base64,OLD''"
    by simp
  from 1 2 show ?thesis by simp
qed


lemma catchError_state:
  "status (pstate (catchError e s)) = error" "progress (pstate (catchError e s)) = None"
  by (simp_all add: catchError_def setStatus_def)

lemma imageFlow_updates:
  "\<exists>evs. trace (world (imageFlow E f b s)) = trace (world s) @ evs
     \<and> updates evs = tl imageSteps @ [pstate (imageFlow E f b s)]
     \<and> status (pstate (imageFlow E f b s)) \<noteq> processing
     \<and> progress (pstate (imageFlow E f b s)) = None"
  by (simp add: imageFlow_def edit_result Let_def setStatus_def setResultUrl_def effect_def
      emit_def catchError_def imageSteps_def only_def split: sum.splits option.splits)

text \<open>The video flow after the capability check, once the video has loaded: the edit call on the frame,
  and what follows each of its outcomes.\<close>

lemma reconstructFlow_run:
  assumes rf: "reconstructFlow E s = Some s'"
    and ld: "loadeddata E (previewUrl s) = Some (vw, vh)"
  shows "\<exists>w r.
     removeImageWatermark E (at1 (split CHR '','' [] (toDataURL E (previewUrl s) vw vh)))
         ''image/jpeg''
         ((world s)\<lparr>trace := trace (world s) @
            [SetStatus (working ''Extracting reference frame...'' 30),
             LoadVideo (previewUrl s), SetTimeout 200, ToDataURL vw vh,
             SetStatus (working ''Cleaning reference frame...'' 50)]\<rparr>) = (w, r)
   \<and> (case r of
         Inl e \<Rightarrow> pstate s' = pstate (catchError e s) \<and> resultUrl s' = resultUrl s
                  \<and> trace (world s') = trace w @ [SetStatus (pstate s')]
       | Inr d \<Rightarrow>
           (\<exists>w' r'. reconstructVideoFromImage E (Some d) ''image/jpeg''
                       (emit (SetStatus (working
                          ''Reconstructing video stream (this may take a minute)...'' 70)) w)
                     = Some (w', r')
              \<and> (case r' of
                    Inl e \<Rightarrow> pstate s' = pstate (catchError e s) \<and> resultUrl s' = resultUrl s
                             \<and> trace (world s') = trace w' @ [SetStatus (pstate s')]
                  | Inr url \<Rightarrow> pstate s' = only success \<and> resultUrl s' = Some url
                      \<and> trace (world s') =
                          trace w' @ [SetResultUrl (Some url), SetStatus (only success)])))"
proof -
  define frame where "frame = at1 (split CHR '','' [] (toDataURL E (previewUrl s) vw vh))"
  define s6 where "s6 = setStatus (working ''Cleaning reference frame...'' 50)
      (effect (ToDataURL vw vh) (effect (SetTimeout 200) (effect (LoadVideo (previewUrl s))
         (setStatus (working ''Extracting reference frame...'' 30) s))))"
  have w6: "world s6 = (world s)\<lparr>trace := trace (world s) @
            [SetStatus (working ''Extracting reference frame...'' 30),
             LoadVideo (previewUrl s), SetTimeout 200, ToDataURL vw vh,
             SetStatus (working ''Cleaning reference frame...'' 50)]\<rparr>"
    by (simp add: s6_def setStatus_def effect_def emit_def)
  have r6: "resultUrl s6 = resultUrl s"
    by (simp add: s6_def setStatus_def effect_def)
  obtain w r where ed: "removeImageWatermark E frame ''image/jpeg'' (world s6) = (w, r)"
    by (cases "removeImageWatermark E frame ''image/jpeg'' (world s6)")
  have tail: "case r of
         Inl e \<Rightarrow> pstate s' = pstate (catchError e s) \<and> resultUrl s' = resultUrl s
                  \<and> trace (world s') = trace w @ [SetStatus (pstate s')]
       | Inr d \<Rightarrow>
           (\<exists>w' r'. reconstructVideoFromImage E (Some d) ''image/jpeg''
                       (emit (SetStatus (working
                          ''Reconstructing video stream (this may take a minute)...'' 70)) w)
                     = Some (w', r')
              \<and> (case r' of
                    Inl e \<Rightarrow> pstate s' = pstate (catchError e s) \<and> resultUrl s' = resultUrl s
                             \<and> trace (world s') = trace w' @ [SetStatus (pstate s')]
                  | Inr url \<Rightarrow> pstate s' = only success \<and> resultUrl s' = Some url
                      \<and> trace (world s') =
                          trace w' @ [SetResultUrl (Some url), SetStatus (only success)]))"
  proof (cases r)
    case (Inl e)
    with rf ld ed have "s' = catchError e (s6\<lparr>world := w\<rparr>)"
      unfolding reconstructFlow_def Let_def s6_def frame_def by simp
    then show ?thesis using Inl r6 by (simp add: catchError_def setStatus_def emit_def)
  next
    case (Inr d)
    define s7 where "s7 = setStatus
        (working ''Reconstructing video stream (this may take a minute)...'' 70)
        (s6\<lparr>world := w\<rparr>)"
    have w7: "world s7 = emit (SetStatus (working
                ''Reconstructing video stream (this may take a minute)...'' 70)) w"
      by (simp add: s7_def setStatus_def)
    have r7: "resultUrl s7 = resultUrl s" by (simp add: s7_def setStatus_def r6)
    from rf ld ed Inr
    have rest: "(case reconstructVideoFromImage E (Some d) ''image/jpeg'' (world s7) of
                   None \<Rightarrow> None
                 | Some (w', Inl e) \<Rightarrow> Some (catchError e (s7\<lparr>world := w'\<rparr>))
                 | Some (w', Inr newVideoUrl) \<Rightarrow>
                     Some (setStatus (only success)
                             (setResultUrl (Some newVideoUrl) (s7\<lparr>world := w'\<rparr>)))) = Some s'"
      unfolding reconstructFlow_def Let_def s6_def s7_def frame_def by simp
    then obtain w' r' where rv:
      "reconstructVideoFromImage E (Some d) ''image/jpeg'' (world s7) = Some (w', r')"
      by (cases "reconstructVideoFromImage E (Some d) ''image/jpeg'' (world s7)") auto
    have "case r' of
            Inl e \<Rightarrow> pstate s' = pstate (catchError e s) \<and> resultUrl s' = resultUrl s
                     \<and> trace (world s') = trace w' @ [SetStatus (pstate s')]
          | Inr url \<Rightarrow> pstate s' = only success \<and> resultUrl s' = Some url
              \<and> trace (world s') = trace w' @ [SetResultUrl (Some url), SetStatus (only success)]"
    proof (cases r')
      case (Inl e)
      with rest rv have "s' = catchError e (s7\<lparr>world := w'\<rparr>)" by simp
      then show ?thesis using Inl r7 by (simp add: catchError_def setStatus_def emit_def)
    next
      case (Inr url)
      with rest rv have "s' = setStatus (only success)
                             (setResultUrl (Some url) (s7\<lparr>world := w'\<rparr>))" by simp
      then show ?thesis using Inr by (simp add: setStatus_def setResultUrl_def emit_def)
    qed
    with rv w7 Inr show ?thesis by auto
  qed
  show ?thesis
    using ed tail unfolding frame_def w6
    by (intro exI[of _ w] exI[of _ r]) simp
qed

lemma reconstructFlow_updates:
  assumes rf: "reconstructFlow E s = Some s'"
  shows "\<exists>evs. trace (world s') = trace (world s) @ evs
     \<and> (updates evs = take 2 (drop 2 videoSteps) @ [pstate s']
        \<or> updates evs = drop 2 videoSteps @ [pstate s'])
     \<and> status (pstate s') \<noteq> processing \<and> progress (pstate s') = None"
proof -
  from rf obtain vw vh where ld: "loadeddata E (previewUrl s) = Some (vw, vh)"
    by (cases "loadeddata E (previewUrl s)") (auto simp: reconstructFlow_def Let_def)
  let ?pre = "[SetStatus (working ''Extracting reference frame...'' 30),
             LoadVideo (previewUrl s), SetTimeout 200, ToDataURL vw vh,
             SetStatus (working ''Cleaning reference frame...'' 50)]"
  let ?r70 = "SetStatus (working ''Reconstructing video stream (this may take a minute)...'' 70)"
  from reconstructFlow_run[OF rf ld]
  obtain w r where ed: "removeImageWatermark E
         (at1 (split CHR '','' [] (toDataURL E (previewUrl s) vw vh))) ''image/jpeg''
         ((world s)\<lparr>trace := trace (world s) @ ?pre\<rparr>) = (w, r)"
    and tail: "case r of
         Inl e \<Rightarrow> pstate s' = pstate (catchError e s) \<and> resultUrl s' = resultUrl s
                  \<and> trace (world s') = trace w @ [SetStatus (pstate s')]
       | Inr d \<Rightarrow>
           (\<exists>w' r'. reconstructVideoFromImage E (Some d) ''image/jpeg'' (emit ?r70 w)
                     = Some (w', r')
              \<and> (case r' of
                    Inl e \<Rightarrow> pstate s' = pstate (catchError e s) \<and> resultUrl s' = resultUrl s
                             \<and> trace (world s') = trace w' @ [SetStatus (pstate s')]
                  | Inr url \<Rightarrow> pstate s' = only success \<and> resultUrl s' = Some url
                      \<and> trace (world s') =
                          trace w' @ [SetResultUrl (Some url), SetStatus (only success)]))"
    by blast
  have "\<exists>evs. trace w = trace ((world s)\<lparr>trace := trace (world s) @ ?pre\<rparr>) @ evs
          \<and> updates evs = []"
    using edit_quiet[of E "at1 (split CHR '','' [] (toDataURL E (previewUrl s) vw vh))"
        "''image/jpeg''" "(world s)\<lparr>trace := trace (world s) @ ?pre\<rparr>"]
    unfolding ed by simp
  then obtain evs1 where e1: "trace w = trace (world s) @ ?pre @ evs1" "updates evs1 = []"
    by auto
  show ?thesis
  proof (cases r)
    case (Inl e)
    with tail have "pstate s' = pstate (catchError e s)"
      "trace (world s') = trace w @ [SetStatus (pstate s')]" by simp_all
    then show ?thesis using e1 catchError_state[of e s]
      by (intro exI[of _ "?pre @ evs1 @ [SetStatus (pstate s')]"])
         (simp add: updates_append videoSteps_def)
  next
    case (Inr d)
    with tail obtain w' r' where
      rv: "reconstructVideoFromImage E (Some d) ''image/jpeg'' (emit ?r70 w) = Some (w', r')"
      and c: "case r' of
                    Inl e \<Rightarrow> pstate s' = pstate (catchError e s) \<and> resultUrl s' = resultUrl s
                             \<and> trace (world s') = trace w' @ [SetStatus (pstate s')]
                  | Inr url \<Rightarrow> pstate s' = only success \<and> resultUrl s' = Some url
                      \<and> trace (world s') =
                          trace w' @ [SetResultUrl (Some url), SetStatus (only success)]"
      by auto
    obtain evs2 where e2: "trace w' = trace w @ ?r70 # evs2" "updates evs2 = []"
      using reconstruct_quiet[OF rv] by (auto simp: emit_def)
    show ?thesis
    proof (cases r')
      case (Inl e)
      with c have "pstate s' = pstate (catchError e s)"
        "trace (world s') = trace w' @ [SetStatus (pstate s')]" by simp_all
      then show ?thesis using e1 e2 catchError_state[of e s]
        by (intro exI[of _ "?pre @ evs1 @ ?r70 # evs2 @ [SetStatus (pstate s')]"])
           (simp add: updates_append videoSteps_def)
    next
      case (Inr url)
      with c have "pstate s' = only success"
        "trace (world s') = trace w' @ [SetResultUrl (Some url), SetStatus (only success)]"
        by simp_all
      then show ?thesis using e1 e2
        by (intro exI[of _ "?pre @ evs1 @ ?r70 # evs2
                              @ [SetResultUrl (Some url), SetStatus (only success)]"])
           (simp add: updates_append videoSteps_def only_def)
    qed
  qed
qed

text \<open>The video flow up to the capability check, when the asset is read and the check does not answer
  false.\<close>

lemma video_to_reconstruct:
  assumes f: "file s = Some f" and tab: "activeTab s = VIDEO" and rd: "readError E f = None"
    and gate: "snd (checkKey E (world s)) \<noteq> Some False"
  shows "\<exists>s2. handleRemoveWatermark E s = reconstructFlow E s2
     \<and> previewUrl s2 = previewUrl s \<and> resultUrl s2 = resultUrl s
     \<and> trace (world s2) = trace (world s) @
        [SetStatus \<lparr>status = processing, message = None, progress = Some 10\<rparr>,
         ReadAsDataURL f,
         SetStatus (working ''Video processing requires a paid API key. Checking...'' 20)]
        @ (case snd (checkKey E (world s)) of None \<Rightarrow> [] | Some c \<Rightarrow> [HasSelectedApiKey])"
proof -
  define s1 where "s1 = (setStatus \<lparr>status = processing, message = None, progress = Some 10\<rparr> s)
     \<lparr>world := emit (ReadAsDataURL f)
        (world (setStatus \<lparr>status = processing, message = None, progress = Some 10\<rparr> s))\<rparr>"
  have v: "handleRemoveWatermark E s = videoFlow E s1"
    using f tab rd unfolding s1_def
    by (simp add: handleRemoveWatermark_def fileToBase64_def Let_def)
  define s2 where "s2 = setStatus
      (working ''Video processing requires a paid API key. Checking...'' 20) s1"
  have k2: "keyChecks (world s2) = keyChecks (world s)"
    by (simp add: s2_def s1_def setStatus_def emit_def)
  have p2: "previewUrl s2 = previewUrl s" "resultUrl s2 = resultUrl s"
    by (simp_all add: s2_def s1_def setStatus_def)
  have t2: "trace (world s2) = trace (world s) @
        [SetStatus \<lparr>status = processing, message = None, progress = Some 10\<rparr>,
         ReadAsDataURL f,
         SetStatus (working ''Video processing requires a paid API key. Checking...'' 20)]"
    by (simp add: s2_def s1_def setStatus_def emit_def)
  obtain wg g where ck: "checkKey E (world s2) = (wg, g)" by (cases "checkKey E (world s2)")
  have gs: "g = snd (checkKey E (world s))" using gate_same[OF k2, of E] ck by simp
  with gate have g: "g \<noteq> Some False" by simp
  have tg: "trace wg = trace (world s2) @ (case g of None \<Rightarrow> [] | Some c \<Rightarrow> [HasSelectedApiKey])"
    using checkKey_trace_exact[of E "world s2"] ck by simp
  have rf: "videoFlow E s1 = reconstructFlow E (s2\<lparr>world := wg\<rparr>)"
    using ck g unfolding s2_def
    by (cases g) (auto simp: videoFlow_def Let_def split: bool.splits)
  show ?thesis
    by (rule exI[of _ "s2\<lparr>world := wg\<rparr>"]) (simp add: v rf p2 tg t2 gs)
qed

lemma video_gate_closed:
  assumes f: "file s = Some f" and tab: "activeTab s = VIDEO" and rd: "readError E f = None"
    and gate: "snd (checkKey E (world s)) = Some False"
  shows "\<exists>s'. handleRemoveWatermark E s = Some s' \<and> pstate s' = only idle
     \<and> trace (world s') = trace (world s) @
         [SetStatus \<lparr>status = processing, message = None, progress = Some 10\<rparr>,
          ReadAsDataURL f,
          SetStatus (working ''Video processing requires a paid API key. Checking...'' 20),
          HasSelectedApiKey, SetStatus (only idle), OpenSelectKey]"
proof -
  from gate obtain a answer where a: "aistudio E = Some a" "hasSelectedApiKey a = Some answer"
    "\<not> answer (keyChecks (world s))"
    by (auto simp: snd_checkKey split: option.splits)
  show ?thesis
    using f tab rd a
    by (simp add: handleRemoveWatermark_def fileToBase64_def videoFlow_def checkKey_def
        Let_def setStatus_def effect_def emit_def)
qed

text \<open>The updates of any run: a prefix of the steps of its flow, and then the final state.\<close>

lemma run_updates:
  assumes run: "handleRemoveWatermark E s = Some s'" and f: "file s = Some f"
  shows "\<exists>evs n. trace (world s') = trace (world s) @ evs
     \<and> 1 \<le> n
     \<and> updates evs = take n (if activeTab s = IMAGE then imageSteps else videoSteps) @ [pstate s']
     \<and> status (pstate s') \<noteq> processing \<and> progress (pstate s') = None"
proof (cases "readError E f")
  case (Some e)
  with run f have "s' = catchError e
      ((setStatus started s)\<lparr>world := emit (ReadAsDataURL f) (world (setStatus started s))\<rparr>)"
    by (simp add: handleRemoveWatermark_def fileToBase64_def Let_def started_def)
  then show ?thesis
    by (intro exI[of _ "[SetStatus started, ReadAsDataURL f, SetStatus (pstate s')]"] exI[of _ 1])
       (simp add: catchError_def setStatus_def emit_def imageSteps_def videoSteps_def)
next
  case None
  show ?thesis
  proof (cases "activeTab s = IMAGE")
    case True
    define s1 where "s1 = (setStatus started s)
        \<lparr>world := emit (ReadAsDataURL f) (world (setStatus started s))\<rparr>"
    have t1: "trace (world s1) = trace (world s) @ [SetStatus started, ReadAsDataURL f]"
      by (simp add: s1_def setStatus_def emit_def)
    from run f None True
    have s': "s' = imageFlow E f (at1 (split CHR '','' [] (readAsDataURL f))) s1"
      unfolding s1_def
      by (simp add: handleRemoveWatermark_def fileToBase64_def Let_def started_def)
    obtain evs where "trace (world s') = trace (world s1) @ evs"
      "updates evs = tl imageSteps @ [pstate s']"
      "status (pstate s') \<noteq> processing" "progress (pstate s') = None"
      using imageFlow_updates[of E f _ s1] s' by auto
    then show ?thesis using t1 True
      by (intro exI[of _ "[SetStatus started, ReadAsDataURL f] @ evs"] exI[of _ 3])
         (simp add: updates_append imageSteps_def)
  next
    case False
    then have tab: "activeTab s = VIDEO" by (cases "activeTab s") simp_all
    show ?thesis
    proof (cases "snd (checkKey E (world s)) = Some False")
      case True
      from video_gate_closed[OF f tab None True] run
      have "pstate s' = only idle" "trace (world s') = trace (world s) @
         [SetStatus \<lparr>status = processing, message = None, progress = Some 10\<rparr>,
          ReadAsDataURL f,
          SetStatus (working ''Video processing requires a paid API key. Checking...'' 20),
          HasSelectedApiKey, SetStatus (only idle), OpenSelectKey]"
        by auto
      then show ?thesis using tab
        by (intro exI[of _ "[SetStatus \<lparr>status = processing, message = None, progress = Some 10\<rparr>,
          ReadAsDataURL f,
          SetStatus (working ''Video processing requires a paid API key. Checking...'' 20),
          HasSelectedApiKey, SetStatus (only idle), OpenSelectKey]"] exI[of _ 2])
           (simp add: videoSteps_def started_def only_def)
    next
      case gate: False
      from video_to_reconstruct[OF f tab None gate]
      obtain s2 where s2: "handleRemoveWatermark E s = reconstructFlow E s2"
        "trace (world s2) = trace (world s) @
          [SetStatus \<lparr>status = processing, message = None, progress = Some 10\<rparr>,
           ReadAsDataURL f,
           SetStatus (working ''Video processing requires a paid API key. Checking...'' 20)]
          @ (case snd (checkKey E (world s)) of None \<Rightarrow> [] | Some c \<Rightarrow> [HasSelectedApiKey])"
        by blast
      define gt where "gt = (case snd (checkKey E (world s)) of None \<Rightarrow> []
                              | Some c \<Rightarrow> [HasSelectedApiKey])"
      have ug: "updates gt = []" by (simp add: gt_def split: option.splits)
      have rf: "reconstructFlow E s2 = Some s'" using run s2(1) by simp
      from reconstructFlow_updates[OF rf]
      obtain evs where ev: "trace (world s') = trace (world s2) @ evs"
        "updates evs = take 2 (drop 2 videoSteps) @ [pstate s']
          \<or> updates evs = drop 2 videoSteps @ [pstate s']"
        "status (pstate s') \<noteq> processing" "progress (pstate s') = None"
        by blast
      let ?all = "[SetStatus \<lparr>status = processing, message = None, progress = Some 10\<rparr>,
           ReadAsDataURL f,
           SetStatus (working ''Video processing requires a paid API key. Checking...'' 20)]
          @ gt @ evs"
      have tr: "trace (world s') = trace (world s) @ ?all"
        using ev(1) s2(2) by (simp add: gt_def)
      from ev(2) show ?thesis
      proof
        assume "updates evs = take 2 (drop 2 videoSteps) @ [pstate s']"
        then have "updates ?all = take 4 videoSteps @ [pstate s']"
          using ug by (simp add: updates_append videoSteps_def started_def)
        with tr ev(3,4) tab show ?thesis
          by (intro exI[of _ ?all] exI[of _ 4]) simp
      next
        assume "updates evs = drop 2 videoSteps @ [pstate s']"
        then have "updates ?all = take 5 videoSteps @ [pstate s']"
          using ug by (simp add: updates_append videoSteps_def started_def)
        with tr ev(3,4) tab show ?thesis
          by (intro exI[of _ ?all] exI[of _ 5]) simp
      qed
    qed
  qed
qed

lemma steps_facts:
  assumes "L = imageSteps \<or> L = videoSteps" "1 \<le> n"
  shows "take n L \<noteq> []" "hd (take n L) = started"
    "\<forall>u\<in>set (take n L). status u = processing \<and> progress u \<noteq> None"
    "\<forall>u\<in>set (tl (take n L)). message u \<noteq> None"
    "sorted (map (the \<circ> progress) (take n L))"
proof -
  have ne: "L \<noteq> []" and h: "hd L = started"
    using assms(1) by (auto simp: imageSteps_def videoSteps_def)
  show "take n L \<noteq> []" using ne assms(2) by (cases L) auto
  show "hd (take n L) = started" using h ne assms(2) by (cases L; cases n) auto
  have all: "\<forall>u\<in>set L. status u = processing \<and> progress u \<noteq> None"
    using assms(1) by (auto simp: imageSteps_def videoSteps_def started_def working_def)
  then show "\<forall>u\<in>set (take n L). status u = processing \<and> progress u \<noteq> None"
    using set_take_subset[of n L] by blast
  have msg: "\<forall>u\<in>set (tl L). message u \<noteq> None"
    using assms(1) by (auto simp: imageSteps_def videoSteps_def working_def)
  have "set (tl (take n L)) \<subseteq> set (tl L)"
    by (simp add: tl_take set_take_subset)
  with msg show "\<forall>u\<in>set (tl (take n L)). message u \<noteq> None" by blast
  have "sorted (map (the \<circ> progress) L)"
    using assms(1) by (auto simp: imageSteps_def videoSteps_def started_def working_def)
  then have "sorted (take n (map (the \<circ> progress) L))" by (rule sorted_wrt_take)
  then show "sorted (map (the \<circ> progress) (take n L))" by (simp add: take_map)
qed

lemma reconstructFlow_reached:
  "reconstructFlow E s =
     (if snd (reconstructFlowReached E s) then Some (fst (reconstructFlowReached E s)) else None)"
  by (simp add: reconstructFlow_def reconstructFlowReached_def Let_def
      split: option.splits prod.splits sum.splits)

lemma videoFlow_reached:
  "videoFlow E s =
     (if snd (videoFlowReached E s) then Some (fst (videoFlowReached E s)) else None)"
  by (simp add: videoFlow_def videoFlowReached_def reconstructFlow_reached Let_def
      split: option.splits prod.splits bool.splits)

text \<open>The two forms of the handler agree: a run returns the state it has reached, or it
  does not return.\<close>

lemma handler_reached:
  "handleRemoveWatermark E s =
     (if snd (reached E s) then Some (fst (reached E s)) else None)"
  by (simp add: handleRemoveWatermark_def reached_def videoFlow_reached Let_def
      split: option.splits prod.splits sum.splits)

lemma final_status:
  assumes "handleRemoveWatermark E s = Some s'" "file s \<noteq> None"
  shows "status (pstate s') = success \<or> status (pstate s') = idle \<or> status (pstate s') = error"
  using assms
  by (auto simp: handleRemoveWatermark_def videoFlow_def reconstructFlow_def imageFlow_def
      Let_def catchError_def setStatus_def setResultUrl_def effect_def only_def
      split: option.splits prod.splits sum.splits bool.splits if_splits)

text \<open>A video flow that does not return waits for the video to load, at progress 30, or
  for the video client, at progress 70.\<close>

lemma reconstructFlow_waits:
  assumes w: "\<not> snd (reconstructFlowReached E s)"
  shows "\<exists>evs. trace (world (fst (reconstructFlowReached E s))) = trace (world s) @ evs
     \<and> (updates evs = take 1 (drop 2 videoSteps) \<or> updates evs = drop 2 videoSteps)
     \<and> pstate (fst (reconstructFlowReached E s)) = last (updates evs)"
proof (cases "loadeddata E (previewUrl s)")
  case None
  then show ?thesis
    by (simp add: reconstructFlowReached_def Let_def setStatus_def effect_def emit_def
        videoSteps_def)
next
  case (Some dims)
  obtain vw vh where d: "dims = (vw, vh)" by (cases dims)
  define frame where "frame = at1 (split CHR '','' [] (toDataURL E (previewUrl s) vw vh))"
  define s6 where "s6 = setStatus (working ''Cleaning reference frame...'' 50)
      (effect (ToDataURL vw vh) (effect (SetTimeout 200) (effect (LoadVideo (previewUrl s))
         (setStatus (working ''Extracting reference frame...'' 30) s))))"
  let ?pre = "[SetStatus (working ''Extracting reference frame...'' 30),
             LoadVideo (previewUrl s), SetTimeout 200, ToDataURL vw vh,
             SetStatus (working ''Cleaning reference frame...'' 50)]"
  have w6: "trace (world s6) = trace (world s) @ ?pre"
    by (simp add: s6_def setStatus_def effect_def emit_def)
  obtain w r where ed: "removeImageWatermark E frame ''image/jpeg'' (world s6) = (w, r)"
    by (cases "removeImageWatermark E frame ''image/jpeg'' (world s6)")
  obtain evs1 where e1: "trace w = trace (world s6) @ evs1" "updates evs1 = []"
    using edit_quiet[of E frame "''image/jpeg''" "world s6"] ed by auto
  define s7 where "s7 = setStatus
        (working ''Reconstructing video stream (this may take a minute)...'' 70)
        (s6\<lparr>world := w\<rparr>)"
  have rr: "reconstructFlowReached E s =
      (case r of
         Inl e \<Rightarrow> (catchError e (s6\<lparr>world := w\<rparr>), True)
       | Inr cleanFrame \<Rightarrow>
          (case reconstructVideoFromImage E (Some cleanFrame) ''image/jpeg'' (world s7) of
             None \<Rightarrow> (s7, False)
           | Some (w', Inl e) \<Rightarrow> (catchError e (s7\<lparr>world := w'\<rparr>), True)
           | Some (w', Inr newVideoUrl) \<Rightarrow>
               (setStatus (only success)
                  (setResultUrl (Some newVideoUrl) (s7\<lparr>world := w'\<rparr>)), True)))"
    using Some d ed unfolding reconstructFlowReached_def Let_def s6_def s7_def frame_def
    by simp
  from w rr have "fst (reconstructFlowReached E s) = s7"
    by (auto split: sum.splits option.splits prod.splits)
  moreover have "trace (world s7) = trace (world s) @ ?pre @ evs1 @
      [SetStatus (working ''Reconstructing video stream (this may take a minute)...'' 70)]"
    "pstate s7 = working ''Reconstructing video stream (this may take a minute)...'' 70"
    by (simp_all add: s7_def setStatus_def emit_def e1(1) w6)
  ultimately show ?thesis using e1(2)
    by (simp add: updates_append videoSteps_def)
qed

lemma reached_to_reconstruct:
  assumes f: "file s = Some f" and tab: "activeTab s = VIDEO" and rd: "readError E f = None"
    and gate: "snd (checkKey E (world s)) \<noteq> Some False"
  shows "\<exists>s2. reached E s = reconstructFlowReached E s2
     \<and> trace (world s2) = trace (world s) @
        [SetStatus \<lparr>status = processing, message = None, progress = Some 10\<rparr>,
         ReadAsDataURL f,
         SetStatus (working ''Video processing requires a paid API key. Checking...'' 20)]
        @ (case snd (checkKey E (world s)) of None \<Rightarrow> [] | Some c \<Rightarrow> [HasSelectedApiKey])"
proof -
  define s1 where "s1 = (setStatus \<lparr>status = processing, message = None, progress = Some 10\<rparr> s)
     \<lparr>world := emit (ReadAsDataURL f)
        (world (setStatus \<lparr>status = processing, message = None, progress = Some 10\<rparr> s))\<rparr>"
  have v: "reached E s = videoFlowReached E s1"
    using f tab rd unfolding s1_def
    by (simp add: reached_def fileToBase64_def Let_def)
  define s2 where "s2 = setStatus
      (working ''Video processing requires a paid API key. Checking...'' 20) s1"
  have k2: "keyChecks (world s2) = keyChecks (world s)"
    by (simp add: s2_def s1_def setStatus_def emit_def)
  have t2: "trace (world s2) = trace (world s) @
        [SetStatus \<lparr>status = processing, message = None, progress = Some 10\<rparr>,
         ReadAsDataURL f,
         SetStatus (working ''Video processing requires a paid API key. Checking...'' 20)]"
    by (simp add: s2_def s1_def setStatus_def emit_def)
  obtain wg g where ck: "checkKey E (world s2) = (wg, g)" by (cases "checkKey E (world s2)")
  have gs: "g = snd (checkKey E (world s))" using gate_same[OF k2, of E] ck by simp
  with gate have g: "g \<noteq> Some False" by simp
  have tg: "trace wg = trace (world s2) @ (case g of None \<Rightarrow> [] | Some c \<Rightarrow> [HasSelectedApiKey])"
    using checkKey_trace_exact[of E "world s2"] ck by simp
  have rf: "videoFlowReached E s1 = reconstructFlowReached E (s2\<lparr>world := wg\<rparr>)"
    using ck g unfolding s2_def
    by (cases g) (auto simp: videoFlowReached_def Let_def split: bool.splits)
  show ?thesis
    by (rule exI[of _ "s2\<lparr>world := wg\<rparr>"]) (simp add: v rf tg t2 gs)
qed

text \<open>A run that does not return is a run of the video flow; it has made the first three
  or all five of the \<open>processing\<close> updates and is left in the last of them.\<close>

lemma reached_waits:
  assumes w: "\<not> snd (reached E s)"
  shows "activeTab s = VIDEO
     \<and> (\<exists>evs n. trace (world (fst (reached E s))) = trace (world s) @ evs \<and> 1 \<le> n
           \<and> updates evs = take n videoSteps
           \<and> pstate (fst (reached E s)) = last (take n videoSteps))"
proof -
  from w obtain f where f: "file s = Some f"
    by (cases "file s") (auto simp: reached_def)
  from w f have rd: "readError E f = None"
    by (cases "readError E f") (auto simp: reached_def fileToBase64_def Let_def)
  from w f rd have tab: "activeTab s = VIDEO"
    by (cases "activeTab s") (auto simp: reached_def fileToBase64_def Let_def)
  have none: "handleRemoveWatermark E s = None" using w by (simp add: handler_reached)
  have gate: "snd (checkKey E (world s)) \<noteq> Some False"
    using video_gate_closed[OF f tab rd] none by auto
  from reached_to_reconstruct[OF f tab rd gate]
  obtain s2 where s2: "reached E s = reconstructFlowReached E s2"
     "trace (world s2) = trace (world s) @
        [SetStatus \<lparr>status = processing, message = None, progress = Some 10\<rparr>,
         ReadAsDataURL f,
         SetStatus (working ''Video processing requires a paid API key. Checking...'' 20)]
        @ (case snd (checkKey E (world s)) of None \<Rightarrow> [] | Some c \<Rightarrow> [HasSelectedApiKey])"
    by blast
  define gt where "gt = (case snd (checkKey E (world s)) of None \<Rightarrow> []
                              | Some c \<Rightarrow> [HasSelectedApiKey])"
  have ug: "updates gt = []" by (simp add: gt_def split: option.splits)
  have w2: "\<not> snd (reconstructFlowReached E s2)" using w s2(1) by simp
  from reconstructFlow_waits[OF w2]
  obtain evs where ev: "trace (world (fst (reached E s))) = trace (world s2) @ evs"
    "updates evs = take 1 (drop 2 videoSteps) \<or> updates evs = drop 2 videoSteps"
    "pstate (fst (reached E s)) = last (updates evs)"
    unfolding s2(1)[symmetric] by blast
  let ?all = "[SetStatus \<lparr>status = processing, message = None, progress = Some 10\<rparr>,
           ReadAsDataURL f,
           SetStatus (working ''Video processing requires a paid API key. Checking...'' 20)]
          @ gt @ evs"
  have tr: "trace (world (fst (reached E s))) = trace (world s) @ ?all"
    using ev(1) s2(2) by (simp add: gt_def)
  from ev(2) have "\<exists>n. 1 \<le> n \<and> updates ?all = take n videoSteps
      \<and> pstate (fst (reached E s)) = last (take n videoSteps)"
  proof
    assume u: "updates evs = take 1 (drop 2 videoSteps)"
    then have "updates ?all = take 3 videoSteps"
      using ug by (simp add: updates_append videoSteps_def started_def)
    moreover have "pstate (fst (reached E s)) = last (take 3 videoSteps)"
      using ev(3) u by (simp add: videoSteps_def)
    ultimately show ?thesis by (intro exI[of _ 3]) simp
  next
    assume u: "updates evs = drop 2 videoSteps"
    then have "updates ?all = take 5 videoSteps"
      using ug by (simp add: updates_append videoSteps_def started_def)
    moreover have "pstate (fst (reached E s)) = last (take 5 videoSteps)"
      using ev(3) u by (simp add: videoSteps_def)
    ultimately show ?thesis by (intro exI[of _ 5]) simp
  qed
  with tr tab show ?thesis by blast
qed

lemma steps_percentages:
  "map (the \<circ> progress) (take n imageSteps) = take (length (take n imageSteps)) [10, 30, 60]"
  "map (the \<circ> progress) (take n videoSteps)
     = take (length (take n videoSteps)) [10, 20, 30, 50, 70]"
proof -
  have i: "map (the \<circ> progress) imageSteps = [10, 30, 60]"
    by (simp add: imageSteps_def started_def working_def)
  have v: "map (the \<circ> progress) videoSteps = [10, 20, 30, 50, 70]"
    by (simp add: videoSteps_def started_def working_def)
  have t: "map g (take n xs) = take (length (take n xs)) (map g xs)"
    for g :: "ProcessingState \<Rightarrow> nat" and xs
    by (simp add: take_map min_def)
  show "map (the \<circ> progress) (take n imageSteps) = take (length (take n imageSteps)) [10, 30, 60]"
    using t[of "the \<circ> progress" imageSteps] unfolding i .
  show "map (the \<circ> progress) (take n videoSteps)
     = take (length (take n videoSteps)) [10, 20, 30, 50, 70]"
    using t[of "the \<circ> progress" videoSteps] unfolding v .
qed

lemma image_run_reached:
  "snd (reached fakeEnv imageApp) \<and> pstate (fst (reached fakeEnv imageApp)) = only success"
  by (simp add: reached_def model fixtures)

lemma stalled_run_reached: "\<not> snd (reached stalledEnv videoApp)"
  by (simp add: reached_def videoFlowReached_def reconstructFlowReached_def model fixtures)

text \<open>
  Claim C8, as stated, fails: not every update carries both a progress percentage and a
  message. In the scenario of the ten-byte image the first update has progress 10 and no
  message, and the last update, \<open>success\<close>, has neither.
\<close>

theorem first_update_has_no_message:
  "map_option (updates \<circ> trace \<circ> world) (handleRemoveWatermark fakeEnv imageApp) =
     Some [\<lparr>status = processing, message = None, progress = Some 10\<rparr>,
           \<lparr>status = processing, message = Some ''Analyzing image structure...'',
            progress = Some 30\<rparr>,
           \<lparr>status = processing, message = Some ''Removing watermark patterns...'',
            progress = Some 60\<rparr>,
           \<lparr>status = success, message = None, progress = None\<rparr>]"
  by (simp add: model fixtures)

text \<open>
  Claim C8, amended. For every run with a selected asset, the updates are a non-empty
  sequence of \<open>processing\<close> states, followed by one final state when the run returns and
  by nothing when it does not (the video never loads, or the video client never returns):
  the state then stays the last \<open>processing\<close> one. Every \<open>processing\<close> state carries a
  progress percentage; the percentages are non-decreasing in the order of the updates, an
  initial part of 10, 30, 60 on the image tab and of 10, 20, 30, 50, 70 on the video tab;
  the first state has progress 10 and no message, and every later one carries a message.
  The final state is \<open>success\<close>, \<open>idle\<close> or \<open>error\<close> and carries no progress.
\<close>

theorem processing_progress_nondecreasing:
  assumes "file s \<noteq> None"
  shows "\<exists>steps.
       updates (since (world s) (world (fst (reached E s)))) =
         steps @ (if snd (reached E s) then [pstate (fst (reached E s))] else [])
     \<and> steps \<noteq> []
     \<and> hd steps = \<lparr>status = processing, message = None, progress = Some 10\<rparr>
     \<and> (\<forall>u\<in>set steps. status u = processing \<and> progress u \<noteq> None)
     \<and> (\<forall>u\<in>set (tl steps). message u \<noteq> None)
     \<and> sorted (map (the \<circ> progress) steps)
     \<and> map (the \<circ> progress) steps =
         take (length steps)
           (if activeTab s = IMAGE then [10, 30, 60] else [10, 20, 30, 50, 70])
     \<and> (if snd (reached E s)
        then handleRemoveWatermark E s = Some (fst (reached E s))
           \<and> (status (pstate (fst (reached E s))) = success
              \<or> status (pstate (fst (reached E s))) = idle
              \<or> status (pstate (fst (reached E s))) = error)
           \<and> progress (pstate (fst (reached E s))) = None
        else handleRemoveWatermark E s = None
           \<and> pstate (fst (reached E s)) = last steps)"
proof -
  from assms obtain f where f: "file s = Some f" by auto
  define L where "L = (if activeTab s = IMAGE then imageSteps else videoSteps)"
  have L: "L = imageSteps \<or> L = videoSteps" by (simp add: L_def)
  have pc: "map (the \<circ> progress) (take n L) =
         take (length (take n L))
           (if activeTab s = IMAGE then [10, 30, 60] else [10, 20, 30, 50, 70])" for n
    unfolding L_def using steps_percentages[of n] by simp
  show ?thesis
  proof (cases "snd (reached E s)")
    case True
    define s' where "s' = fst (reached E s)"
    have run: "handleRemoveWatermark E s = Some s'"
      using True by (simp add: handler_reached s'_def)
    from run_updates[OF run f]
    obtain evs n where r: "trace (world s') = trace (world s) @ evs" "1 \<le> n"
      "updates evs = take n L @ [pstate s']"
      "status (pstate s') \<noteq> processing" "progress (pstate s') = None"
      unfolding L_def by blast
    have sn: "since (world s) (world s') = evs" by (rule since_append[OF r(1)])
    have fs: "status (pstate s') = success \<or> status (pstate s') = idle
              \<or> status (pstate s') = error"
      by (rule final_status[OF run assms])
    show ?thesis
      apply (rule exI[of _ "take n L"])
      using steps_facts[OF L r(2)] r(3,5) fs run True pc[of n]
      apply (simp only: sn started_def s'_def[symmetric] if_True)
      apply simp
      done
  next
    case False
    from reached_waits[OF False]
    obtain evs n where r: "activeTab s = VIDEO"
      "trace (world (fst (reached E s))) = trace (world s) @ evs" "1 \<le> n"
      "updates evs = take n videoSteps"
      "pstate (fst (reached E s)) = last (take n videoSteps)"
      by blast
    have LV: "L = videoSteps" using r(1) by (simp add: L_def)
    have sn: "since (world s) (world (fst (reached E s))) = evs"
      by (rule since_append[OF r(2)])
    have none: "handleRemoveWatermark E s = None" using False by (simp add: handler_reached)
    show ?thesis
      apply (rule exI[of _ "take n L"])
      using steps_facts[OF L r(3)] r(4,5) none False pc[of n]
      apply (simp only: sn started_def LV if_False)
      apply simp
      done
  qed
qed

text \<open>The run of the ten-byte image: progress 10, 30 and 60, then \<open>success\<close>. The run
  of the video that never loads: progress 10, 20 and 30, and no return.\<close>

theorem processing_progress_nondecreasing_witness:
  "(\<exists>steps. updates (since start (world (fst (reached fakeEnv imageApp))))
               = steps @ [only success]
        \<and> steps \<noteq> []
        \<and> sorted (map (the \<circ> progress) steps)
        \<and> map (the \<circ> progress) steps = take (length steps) [10, 30, 60])
   \<and> (\<exists>steps. updates (since start (world (fst (reached stalledEnv videoApp)))) = steps
        \<and> steps \<noteq> []
        \<and> sorted (map (the \<circ> progress) steps)
        \<and> map (the \<circ> progress) steps = take (length steps) [10, 20, 30, 50, 70]
        \<and> pstate (fst (reached stalledEnv videoApp)) = last steps)
   \<and> handleRemoveWatermark stalledEnv videoApp = None"
proof -
  have f: "file imageApp \<noteq> None" "file videoApp \<noteq> None"
    by (simp_all add: imageApp_def videoApp_def)
  have t: "activeTab imageApp = IMAGE" "activeTab videoApp = VIDEO"
    "world imageApp = start" "world videoApp = start"
    by (simp_all add: imageApp_def videoApp_def)
  from processing_progress_nondecreasing[OF f(1), of fakeEnv] image_run_reached
  have 1: "\<exists>steps. updates (since start (world (fst (reached fakeEnv imageApp))))
               = steps @ [only success]
        \<and> steps \<noteq> []
        \<and> sorted (map (the \<circ> progress) steps)
        \<and> map (the \<circ> progress) steps = take (length steps) [10, 30, 60]"
    by (auto simp: t)
  from processing_progress_nondecreasing[OF f(2), of stalledEnv] stalled_run_reached
  have 2: "(\<exists>steps. updates (since start (world (fst (reached stalledEnv videoApp)))) = steps
        \<and> steps \<noteq> []
        \<and> sorted (map (the \<circ> progress) steps)
        \<and> map (the \<circ> progress) steps = take (length steps) [10, 20, 30, 50, 70]
        \<and> pstate (fst (reached stalledEnv videoApp)) = last steps)
      \<and> handleRemoveWatermark stalledEnv videoApp = None"
    by (auto simp: t)
  from 1 2 show ?thesis by simp
qed

section \<open>The reference frame\<close>








section \<open>The absent collaborator\<close>




section \<open>The encoding helper\<close>

lemma indexOf_nth:
  "distinct xs \<Longrightarrow> k < length xs \<Longrightarrow> indexOf (xs ! k) xs = Some k"
proof (induction xs arbitrary: k)
  case Nil
  then show ?case by simp
next
  case (Cons x xs)
  show ?case
  proof (cases k)
    case 0
    then show ?thesis by simp
  next
    case (Suc j)
    with Cons.prems have "xs ! j \<in> set xs" "x \<notin> set xs" by auto
    then have "x \<noteq> xs ! j" by auto
    with Suc Cons show ?thesis by simp
  qed
qed

lemma distinct_alphabet: "distinct alphabet"
  by (simp add: alphabet_def)

lemma length_alphabet: "length alphabet = 64"
  by (simp add: alphabet_def)

lemma alphabet_plain: "CHR '','' \<notin> set alphabet" "CHR ''='' \<notin> set alphabet"
  by (simp_all add: alphabet_def)

lemma b64char_in: "i < 64 \<Longrightarrow> b64char i \<in> set alphabet"
  by (simp add: b64char_def length_alphabet)

lemma b64index_b64char: "i < 64 \<Longrightarrow> b64index (b64char i) = Some i"
  unfolding b64index_def b64char_def
  by (rule indexOf_nth[OF distinct_alphabet]) (simp add: length_alphabet)

lemma b64char_plain:
  "i < 64 \<Longrightarrow> b64char i \<noteq> CHR ''=''" "i < 64 \<Longrightarrow> b64char i \<noteq> CHR '',''"
  using b64char_in[of i] alphabet_plain by metis+

text \<open>The four sextets of three bytes are below 64, and regrouping them gives the bytes.\<close>

lemma sextets_lt:
  fixes a b c :: nat
  assumes "a < 256" "b < 256" "c < 256"
  shows "a div 4 < 64" "(a mod 4) * 16 + b div 16 < 64" "(b mod 16) * 4 + c div 64 < 64"
    "c mod 64 < 64" "(a mod 4) * 16 < 64" "(b mod 16) * 4 < 64"
proof -
  show "a div 4 < 64" using assms(1) by (simp add: less_mult_imp_div_less)
  have "a mod 4 < 4" by simp
  then have a4: "a mod 4 \<le> 3" by linarith
  moreover have "b div 16 < 16" using assms(2) by (simp add: less_mult_imp_div_less)
  ultimately show "(a mod 4) * 16 + b div 16 < 64" by linarith
  have "b mod 16 < 16" by simp
  then have b16: "b mod 16 \<le> 15" by linarith
  moreover have "c div 64 < 4" using assms(3) by (simp add: less_mult_imp_div_less)
  ultimately show "(b mod 16) * 4 + c div 64 < 64" by linarith
  show "c mod 64 < 64" by simp
  show "(a mod 4) * 16 < 64" using a4 by linarith
  show "(b mod 16) * 4 < 64" using b16 by linarith
qed

lemma regroup:
  fixes a b c :: nat
  assumes "b < 256" "c < 256"
  shows "(a div 4) * 4 + ((a mod 4) * 16 + b div 16) div 16 = a"
    "(((a mod 4) * 16 + b div 16) mod 16) * 16 + ((b mod 16) * 4 + c div 64) div 4 = b"
    "(((b mod 16) * 4 + c div 64) mod 4) * 64 + c mod 64 = c"
    "(a div 4) * 4 + ((a mod 4) * 16) div 16 = a"
    "(((a mod 4) * 16 + b div 16) mod 16) * 16 + ((b mod 16) * 4) div 4 = b"
proof -
  have b16: "b div 16 < 16" using assms(1) by (simp add: less_mult_imp_div_less)
  have c64: "c div 64 < 4" using assms(2) by (simp add: less_mult_imp_div_less)
  show "(a div 4) * 4 + ((a mod 4) * 16 + b div 16) div 16 = a"
    using b16 by simp
  show "(((a mod 4) * 16 + b div 16) mod 16) * 16 + ((b mod 16) * 4 + c div 64) div 4 = b"
    using b16 c64 by simp
  show "(((b mod 16) * 4 + c div 64) mod 4) * 64 + c mod 64 = c"
    using c64 by simp
  show "(a div 4) * 4 + ((a mod 4) * 16) div 16 = a" by simp
  show "(((a mod 4) * 16 + b div 16) mod 16) * 16 + ((b mod 16) * 4) div 4 = b"
    using b16 by simp
qed

lemma unat8_lt: "unat (a :: 8 word) < 256"
  using unsigned_less[of a, where 'a = nat] by simp

lemma group_sextets:
  fixes a b c :: "8 word"
  shows "group3 (unat a div 4) ((unat a mod 4) * 16 + unat b div 16)
           ((unat b mod 16) * 4 + unat c div 64) (unat c mod 64) = [a, b, c]"
    and "group2 (unat a div 4) ((unat a mod 4) * 16 + unat b div 16) ((unat b mod 16) * 4)
           = [a, b]"
    and "group1 (unat a div 4) ((unat a mod 4) * 16) = [a]"
proof -
  note rg = regroup[OF unat8_lt[of b] unat8_lt[of c]]
  show "group3 (unat a div 4) ((unat a mod 4) * 16 + unat b div 16)
           ((unat b mod 16) * 4 + unat c div 64) (unat c mod 64) = [a, b, c]"
    unfolding group3_def by (simp only: rg(1,2,3)) simp
  show "group2 (unat a div 4) ((unat a mod 4) * 16 + unat b div 16) ((unat b mod 16) * 4)
           = [a, b]"
    unfolding group2_def by (simp only: rg(1,5)) simp
  show "group1 (unat a div 4) ((unat a mod 4) * 16) = [a]"
    unfolding group1_def by (simp only: rg(4)) simp
qed

lemma decode64_base64: "decode64 (base64 bs) = Some bs"
proof (induction bs rule: base64.induct)
  case 1
  show ?case by simp
next
  case (2 a)
  note lt = sextets_lt[OF unat8_lt[of a] unat8_lt[of a] unat8_lt[of a]]
  show ?case
    by (simp add: b64index_b64char b64char_plain lt group_sextets)
next
  case (3 a b)
  note lt = sextets_lt[OF unat8_lt[of a] unat8_lt[of b] unat8_lt[of b]]
  show ?case
    by (simp add: b64index_b64char b64char_plain lt group_sextets)
next
  case (4 a b c rest)
  note lt = sextets_lt[OF unat8_lt[of a] unat8_lt[of b] unat8_lt[of c]]
  show ?case
    using 4 by (simp add: b64index_b64char b64char_plain lt group_sextets)
qed

lemma base64_no_comma: "CHR '','' \<notin> set (base64 bs)"
proof (induction bs rule: base64.induct)
  case 1
  show ?case by simp
next
  case (2 a)
  note lt = sextets_lt[OF unat8_lt[of a] unat8_lt[of a] unat8_lt[of a]]
  show ?case using b64char_plain(2) lt by (auto simp: eq_commute[of "CHR '',''"])
next
  case (3 a b)
  note lt = sextets_lt[OF unat8_lt[of a] unat8_lt[of b] unat8_lt[of b]]
  show ?case using b64char_plain(2) lt by (auto simp: eq_commute[of "CHR '',''"])
next
  case (4 a b c rest)
  note lt = sextets_lt[OF unat8_lt[of a] unat8_lt[of b] unat8_lt[of c]]
  show ?case using 4 b64char_plain(2) lt by (auto simp: eq_commute[of "CHR '',''"])
qed

lemma split_no_sep: "sep \<notin> set cs \<Longrightarrow> split sep acc cs = [rev acc @ cs]"
  by (induction cs arbitrary: acc) auto

lemma split_first:
  "sep \<notin> set pre \<Longrightarrow> split sep acc (pre @ sep # rest) = (rev acc @ pre) # split sep [] rest"
  by (induction pre arbitrary: acc) auto

text \<open>Taking the piece after the first comma strips exactly the prefix of the data URL,
  as long as the declared type has no comma of its own.\<close>

lemma strip_prefix:
  assumes "CHR '','' \<notin> set (ftype f)"
  shows "at1 (split CHR '','' [] (readAsDataURL f)) = Some (base64 (fbytes f))"
proof -
  have "readAsDataURL f = (''data:'' @ ftype f @ '';base64'') @ CHR '','' # base64 (fbytes f)"
    by (simp add: readAsDataURL_def)
  moreover have "CHR '','' \<notin> set (''data:'' @ ftype f @ '';base64'')"
    using assms by simp
  ultimately have "split CHR '','' [] (readAsDataURL f) =
      (''data:'' @ ftype f @ '';base64'') # split CHR '','' [] (base64 (fbytes f))"
    using split_first[of "CHR '',''" "''data:'' @ ftype f @ '';base64''" "[]" "base64 (fbytes f)"]
    by simp
  then show ?thesis
    by (simp add: split_no_sep[OF base64_no_comma])
qed

text \<open>
  Claim C6. For an asset that is read and whose declared type contains no comma,
  \<open>fileToBase64\<close> resolves with the base64 payload alone, the prefix of the data URL
  stripped, and decoding that payload gives back the bytes of the asset. The type travels
  beside the payload: in the image flow the edit request carries the payload together with
  the type of the asset.
\<close>

theorem fileToBase64_roundtrip:
  assumes "CHR '','' \<notin> set (ftype f)" "readError E f = None"
  shows "(\<exists>payload. snd (fileToBase64 E f w) = Inr (Some payload)
            \<and> payload = base64 (fbytes f) \<and> decode64 payload = Some (fbytes f))
     \<and> (file s = Some f \<and> activeTab s = IMAGE \<longrightarrow>
          (\<exists>s'. handleRemoveWatermark E s = Some s'
             \<and> GenerateContent (editRequest (Some (base64 (fbytes f))) (ftype f))
                 \<in> set (since (world s) (world s'))))"
proof (intro conjI impI)
  show "\<exists>payload. snd (fileToBase64 E f w) = Inr (Some payload)
            \<and> payload = base64 (fbytes f) \<and> decode64 payload = Some (fbytes f)"
    using assms by (simp add: fileToBase64_def Let_def strip_prefix decode64_base64)
next
  assume a: "file s = Some f \<and> activeTab s = IMAGE"
  define s3 where "s3 = setStatus (working ''Removing watermark patterns...'' 60)
     (effect (SetTimeout 500) (setStatus (working ''Analyzing image structure...'' 30)
       ((setStatus \<lparr>status = processing, message = None, progress = Some 10\<rparr> s)
          \<lparr>world := emit (ReadAsDataURL f)
             (world (setStatus \<lparr>status = processing, message = None, progress = Some 10\<rparr> s))\<rparr>)))"
  obtain pre where t3: "trace (world s3) = trace (world s) @ pre"
    by (simp add: s3_def setStatus_def effect_def emit_def)
  obtain w r where ed: "removeImageWatermark E (Some (base64 (fbytes f))) (ftype f) (world s3)
                          = (w, r)"
    by (cases "removeImageWatermark E (Some (base64 (fbytes f))) (ftype f) (world s3)")
  obtain rest where rest: "trace w = trace (world s3)
       @ GenerateContent (editRequest (Some (base64 (fbytes f))) (ftype f)) # rest"
    using edit_emits[OF ed] by blast
  have "\<exists>s' fin. handleRemoveWatermark E s = Some s' \<and> trace (world s') = trace w @ fin"
    using a assms ed unfolding s3_def
    by (cases r)
       (simp_all add: handleRemoveWatermark_def fileToBase64_def imageFlow_def Let_def
          strip_prefix catchError_def setStatus_def setResultUrl_def emit_def)
  then obtain s' fin where run: "handleRemoveWatermark E s = Some s'"
    and fin: "trace (world s') = trace w @ fin" by blast
  have "since (world s) (world s') =
      pre @ GenerateContent (editRequest (Some (base64 (fbytes f))) (ftype f)) # rest @ fin"
    by (rule since_append) (simp add: fin rest t3)
  with run show "\<exists>s'. handleRemoveWatermark E s = Some s'
             \<and> GenerateContent (editRequest (Some (base64 (fbytes f))) (ftype f))
                 \<in> set (since (world s) (world s'))"
    by auto
qed

lemma base64_pngFixture: "base64 (fbytes pngFixture) = ''iVBORw0KGgoA/w==''"
  by (simp add: pngFixture_def b64char_def alphabet_def)

text \<open>The ten-byte fixture: its payload, and the payload decoded.\<close>

theorem fileToBase64_roundtrip_witness:
  "snd (fileToBase64 fakeEnv pngFixture start) = Inr (Some ''iVBORw0KGgoA/w=='')
   \<and> decode64 ''iVBORw0KGgoA/w==''
       = Some [0x89, 0x50, 0x4E, 0x47, 0x0D, 0x0A, 0x1A, 0x0A, 0x00, 0xFF]
   \<and> (\<exists>s'. handleRemoveWatermark fakeEnv imageApp = Some s'
         \<and> GenerateContent (editRequest (Some ''iVBORw0KGgoA/w=='') ''image/png'')
             \<in> set (since start (world s')))"
proof -
  have h: "CHR '','' \<notin> set (ftype pngFixture)" "readError fakeEnv pngFixture = None"
    by (simp_all add: pngFixture_def fakeEnv_def)
  have a: "file imageApp = Some pngFixture \<and> activeTab imageApp = IMAGE"
    by (simp add: imageApp_def)
  have b: "fbytes pngFixture = [0x89, 0x50, 0x4E, 0x47, 0x0D, 0x0A, 0x1A, 0x0A, 0x00, 0xFF]"
    "ftype pngFixture = ''image/png''" "world imageApp = start"
    by (simp_all add: pngFixture_def imageApp_def)
  from fileToBase64_roundtrip[OF h, of start imageApp] a
  have "snd (fileToBase64 fakeEnv pngFixture start) = Inr (Some (base64 (fbytes pngFixture)))"
    and "decode64 (base64 (fbytes pngFixture)) = Some (fbytes pngFixture)"
    and "\<exists>s'. handleRemoveWatermark fakeEnv imageApp = Some s'
         \<and> GenerateContent (editRequest (Some (base64 (fbytes pngFixture))) (ftype pngFixture))
             \<in> set (since (world imageApp) (world s'))"
    by auto
  then show ?thesis unfolding base64_pngFixture unfolding b by simp
qed

end
